theory Spec2Isabelle
  imports
    Complex_Main
    "HOL-Library.Log_Nat"
    "HOL-Library.AList"
    "HOL-Library.Sublist"
    "HOL-Library.Char_ord"
    "HOL-Library.List_Lexorder"
    "HOL-Library.Product_Lexorder"
begin

section \<open>Python values used by \<open>scripts/bench/summarize.py\<close>\<close>

subsection \<open>Floats\<close>

text \<open>
  A Python \<open>float\<close> is an IEEE 754 binary64 number. \<open>Finite s q\<close> is the finite number
  of sign \<open>s\<close> (\<open>True\<close> for negative) and magnitude \<open>q \<ge> 0\<close>, so that \<open>Finite True 0\<close> is
  \<open>-0.0\<close>; \<open>Infinite s\<close> is \<open>inf\<close> or \<open>-inf\<close>.
\<close>

datatype pyfloat = Finite bool rat | Infinite bool | NaN

definition pow2 :: "int \<Rightarrow> rat" where
  "pow2 e = (if 0 \<le> e then 2 ^ nat e else 1 / 2 ^ nat (- e))"

definition pow10 :: "int \<Rightarrow> rat" where
  "pow10 e = (if 0 \<le> e then 10 ^ nat e else 1 / 10 ^ nat (- e))"

definition round_half_even :: "rat \<Rightarrow> int" where
  "round_half_even x =
     (let f = \<lfloor>x\<rfloor>; d = x - of_int f
      in if d < 1 / 2 then f else if 1 / 2 < d then f + 1 else if even f then f else f + 1)"

text \<open>\<open>ilog2 q\<close> is the binary exponent of \<open>q > 0\<close>: \<open>2 ^ ilog2 q \<le> q < 2 ^ (ilog2 q + 1)\<close>.\<close>

definition ilog2 :: "rat \<Rightarrow> int" where
  "ilog2 q =
     (case quotient_of q of (a, b) \<Rightarrow>
        (let d = bitlen a - bitlen b in if pow2 d \<le> q then d else d - 1))"

text \<open>
  Rounding of an exact magnitude to the nearest binary64 number, ties to even: 53
  significant bits, exponents down to the subnormal range, and overflow to infinity when
  the rounded magnitude \<open>r\<close> reaches \<open>2 ^ 1024\<close>, that is when its binary exponent does.
\<close>

definition round64 :: "bool \<Rightarrow> rat \<Rightarrow> pyfloat" where
  "round64 s q =
     (if q = 0 then Finite s 0
      else let e = max (ilog2 q) (- 1022) - 52;
               r = of_int (round_half_even (q / pow2 e)) * pow2 e
           in if 1024 \<le> ilog2 r then Infinite s else Finite s r)"

text \<open>\<open>x * y\<close> on floats.\<close>

fun fmul :: "pyfloat \<Rightarrow> pyfloat \<Rightarrow> pyfloat" where
  "fmul NaN _ = NaN"
| "fmul _ NaN = NaN"
| "fmul (Infinite s) (Infinite t) = Infinite (s \<noteq> t)"
| "fmul (Infinite s) (Finite t q) = (if q = 0 then NaN else Infinite (s \<noteq> t))"
| "fmul (Finite s q) (Infinite t) = (if q = 0 then NaN else Infinite (s \<noteq> t))"
| "fmul (Finite s p) (Finite t q) = round64 (s \<noteq> t) (p * q)"

text \<open>
  \<open>x / y\<close> on floats for a divisor that is not zero; Python raises \<open>ZeroDivisionError\<close>
  before dividing when it is (see \<open>py_truediv\<close>).
\<close>

fun fdiv :: "pyfloat \<Rightarrow> pyfloat \<Rightarrow> pyfloat" where
  "fdiv NaN _ = NaN"
| "fdiv _ NaN = NaN"
| "fdiv (Infinite s) (Infinite t) = NaN"
| "fdiv (Infinite s) (Finite t q) = Infinite (s \<noteq> t)"
| "fdiv (Finite s p) (Infinite t) = Finite (s \<noteq> t) 0"
| "fdiv (Finite s p) (Finite t q) = round64 (s \<noteq> t) (p / q)"

text \<open>\<open>x == 0.0\<close> on floats: both zeros compare equal to \<open>0.0\<close>, \<open>nan\<close> does not.\<close>

fun is_zero :: "pyfloat \<Rightarrow> bool" where
  "is_zero (Finite s q) = (q = 0)"
| "is_zero _ = False"

subsection \<open>Strings\<close>

text \<open>\<open>s.partition(c)\<close> for a separator of one character.\<close>

definition str_partition :: "string \<Rightarrow> char \<Rightarrow> string \<times> string \<times> string" where
  "str_partition s c =
     (if c \<in> set s
      then (takeWhile (\<lambda>x. x \<noteq> c) s, [c], tl (dropWhile (\<lambda>x. x \<noteq> c) s))
      else (s, [], []))"

text \<open>
  The white space that \<open>int\<close> and \<open>float\<close> strip from both ends of a string: tab, line
  feed, vertical tab, form feed, carriage return, space, and among the code points from
  128 to 255 the two Unicode spaces U+0085 and U+00A0.
\<close>

definition is_space :: "char \<Rightarrow> bool" where
  "is_space c = (of_char c \<in> {9, 10, 11, 12, 13, 32, 133, 160 :: nat})"

definition strip :: "string \<Rightarrow> string" where
  "strip s = rev (dropWhile is_space (rev (dropWhile is_space s)))"

definition is_digit :: "char \<Rightarrow> bool" where
  "is_digit c = (CHR ''0'' \<le> c \<and> c \<le> CHR ''9'')"

definition digit_val :: "char \<Rightarrow> int" where
  "digit_val c = int (of_char c) - 48"

definition digits_value :: "string \<Rightarrow> int" where
  "digits_value ds = foldl (\<lambda>a c. 10 * a + digit_val c) 0 ds"

text \<open>Digits with single underscores between them: \<open>digit ("_"? digit)*\<close>.\<close>

fun digit_groups :: "string \<Rightarrow> bool" where
  "digit_groups [] = False"
| "digit_groups [c] = is_digit c"
| "digit_groups (c # d # cs) =
     (is_digit c \<and> (if d = CHR ''_'' then digit_groups cs else digit_groups (d # cs)))"

definition split_sign :: "string \<Rightarrow> bool \<times> string" where
  "split_sign s =
     (case s of
        [] \<Rightarrow> (False, [])
      | c # cs \<Rightarrow>
          if c = CHR ''-'' then (True, cs) else if c = CHR ''+'' then (False, cs) else (False, s))"

text \<open>
  \<open>int(s)\<close> on a string, base 10: \<open>None\<close> where Python raises \<open>ValueError\<close>. \<open>maxd\<close> is
  the interpreter's limit on the number of digits (\<open>sys.get_int_max_str_digits()\<close>, 4300
  by default from Python 3.11 on); 0 means no limit, as in older versions.
\<close>

definition py_int :: "nat \<Rightarrow> string \<Rightarrow> int option" where
  "py_int maxd s =
     (case split_sign (strip s) of (neg, body) \<Rightarrow>
        (let ds = filter is_digit body
         in if \<not> digit_groups body then None
            else if 0 < maxd \<and> maxd < length ds then None
            else Some (if neg then - digits_value ds else digits_value ds)))"

text \<open>\<open>str(n)\<close> for an integer; \<open>dec_str\<close> gives the decimal digits of \<open>n \<ge> 0\<close>.\<close>

function dec_str :: "int \<Rightarrow> string" where
  "dec_str n =
     (if n < 10 then [char_of (48 + n)] else dec_str (n div 10) @ [char_of (48 + n mod 10)])"
  by pat_completeness auto
termination
  by (relation "measure nat") auto

declare dec_str.simps [simp del]

definition int_str :: "int \<Rightarrow> string" where
  "int_str n = (if n < 0 then CHR ''-'' # dec_str (- n) else dec_str n)"

subsection \<open>Floats from integers and strings, and their text\<close>

text \<open>\<open>float(n)\<close> for an integer: \<open>None\<close> where Python raises \<open>OverflowError\<close>.\<close>

definition float_of_int :: "int \<Rightarrow> pyfloat option" where
  "float_of_int n =
     (case round64 (n < 0) (of_int \<bar>n\<bar>) of Infinite s \<Rightarrow> None | x \<Rightarrow> Some x)"

definition to_lower :: "char \<Rightarrow> char" where
  "to_lower c =
     (if CHR ''A'' \<le> c \<and> c \<le> CHR ''Z'' then char_of (of_char c + (32 :: nat)) else c)"

definition is_exp_char :: "char \<Rightarrow> bool" where
  "is_exp_char c = (c = CHR ''e'' \<or> c = CHR ''E'')"

text \<open>
  \<open>float(s)\<close> on a string: \<open>None\<close> where Python raises \<open>ValueError\<close>. After stripping and
  the sign come \<open>inf\<close>, \<open>infinity\<close> or \<open>nan\<close> in any case, or a decimal numeral with an
  optional fraction and exponent; the value is the numeral rounded to the nearest float.
\<close>

definition float_of_str :: "string \<Rightarrow> pyfloat option" where
  "float_of_str s =
     (case split_sign (strip s) of (neg, u) \<Rightarrow>
        (let l = map to_lower u
         in if l = ''inf'' \<or> l = ''infinity'' then Some (Infinite neg)
            else if l = ''nan'' then Some NaN
            else
              (let mant = takeWhile (\<lambda>c. \<not> is_exp_char c) u;
                   rest = dropWhile (\<lambda>c. \<not> is_exp_char c) u
               in case str_partition mant CHR ''.'' of (ip, dot, fp) \<Rightarrow>
                    (case split_sign (tl rest) of (eneg, eb) \<Rightarrow>
                       if (ip = [] \<or> digit_groups ip) \<and> (fp = [] \<or> digit_groups fp)
                          \<and> (ip \<noteq> [] \<or> fp \<noteq> []) \<and> (rest = [] \<or> digit_groups eb)
                       then
                         (let fd = filter is_digit fp;
                              ex = (if rest = [] then 0 else digits_value (filter is_digit eb))
                          in Some (round64 neg
                               (of_int (digits_value (filter is_digit ip @ fd))
                                * pow10 ((if eneg then - ex else ex) - int (length fd)))))
                       else None))))"

text \<open>\<open>ilog10 q\<close> is the decimal exponent of \<open>q > 0\<close>: \<open>10 ^ ilog10 q \<le> q < 10 ^ (ilog10 q + 1)\<close>.\<close>

definition ilog10 :: "rat \<Rightarrow> int" where
  "ilog10 q =
     (case quotient_of q of (a, b) \<Rightarrow>
        (let d = int (length (dec_str a)) - int (length (dec_str b))
         in if pow10 d \<le> q then d else d - 1))"

text \<open>
  The decimal numeral \<open>m * 10 ^ j\<close> of \<open>n\<close> significant digits that reads back as \<open>q\<close>:
  when the numerals on both sides of \<open>q\<close> do, the nearer one, and the even one on a tie.
\<close>

definition decimal_near :: "rat \<Rightarrow> nat \<Rightarrow> (int \<times> int) option" where
  "decimal_near q n =
     (let j = ilog10 q - int n + 1;
          lo = \<lfloor>q / pow10 j\<rfloor>;
          ok = filter (\<lambda>m. round64 False (of_int m * pow10 j) = Finite False q) [lo, lo + 1]
      in case ok of
           [] \<Rightarrow> None
         | [m] \<Rightarrow> Some (m, j)
         | m # m' # _ \<Rightarrow>
             (let below = q - of_int m * pow10 j; above = of_int m' * pow10 j - q
              in Some (if below < above \<or> (below = above \<and> even m) then m else m', j)))"

text \<open>
  The shortest decimal numeral that reads back as \<open>q\<close>, as \<open>repr\<close> prints it: the first
  number of digits, from 1 on, that has one; 17 significant digits are always enough.
\<close>

fun first_decimal :: "rat \<Rightarrow> nat list \<Rightarrow> (int \<times> int) option" where
  "first_decimal q [] = None"
| "first_decimal q (n # ns) =
     (case decimal_near q n of Some r \<Rightarrow> Some r | None \<Rightarrow> first_decimal q ns)"

definition shortest_decimal :: "rat \<Rightarrow> int \<times> int" where
  "shortest_decimal q =
     (case first_decimal q [1 ..< 18] of
        Some r \<Rightarrow> r
      | None \<Rightarrow> (round_half_even (q / pow10 (ilog10 q - 16)), ilog10 q - 16))"

definition strip_zeros :: "string \<Rightarrow> string" where
  "strip_zeros ds = rev (dropWhile (\<lambda>c. c = CHR ''0'') (rev ds))"

text \<open>
  The layout of \<open>repr\<close>: \<open>ds\<close> are the significant digits and the decimal point stands
  after the first \<open>decpt\<close> of them; the exponent form is used when \<open>decpt \<le> -4\<close> or
  \<open>decpt > 16\<close>.
\<close>

definition float_layout :: "string \<Rightarrow> int \<Rightarrow> string" where
  "float_layout ds decpt =
     (if decpt \<le> - 4 \<or> 16 < decpt then
        [hd ds] @ (if tl ds = [] then [] else CHR ''.'' # tl ds) @ ''e''
        @ (if decpt - 1 < 0 then ''-'' else ''+'')
        @ (if \<bar>decpt - 1\<bar> < 10 then ''0'' else []) @ dec_str \<bar>decpt - 1\<bar>
      else if decpt \<le> 0 then ''0.'' @ replicate (nat (- decpt)) CHR ''0'' @ ds
      else if int (length ds) \<le> decpt then
        ds @ replicate (nat (decpt - int (length ds))) CHR ''0'' @ ''.0''
      else take (nat decpt) ds @ ''.'' @ drop (nat decpt) ds)"

text \<open>\<open>repr(x)\<close>, which is also \<open>str(x)\<close>, for a float.\<close>

fun float_repr :: "pyfloat \<Rightarrow> string" where
  "float_repr NaN = ''nan''"
| "float_repr (Infinite s) = (if s then ''-inf'' else ''inf'')"
| "float_repr (Finite s q) =
     (if s then ''-'' else [])
     @ (if q = 0 then ''0.0''
        else case shortest_decimal q of (m, j) \<Rightarrow>
          float_layout (strip_zeros (dec_str m)) (int (length (dec_str m)) + j))"

subsection \<open>JSON documents and exceptions\<close>

text \<open>
  The value \<open>json.load\<close> returns. Strings are lists of code points below 256. An object
  is the list of its members in document order; on a repeated key the last member wins,
  as in \<open>json.load\<close>.
\<close>

datatype json =
    JNull
  | JBool bool
  | JInt int
  | JFloat pyfloat
  | JStr string
  | JArr "json list"
  | JObj "(string \<times> json) list"

text \<open>
  The exceptions the script can raise. Both \<open>to_ns\<close> and \<open>int(arg)\<close> raise \<open>ValueError\<close>;
  the payload tells them apart: \<open>UnsupportedTimeUnit u\<close> is
  \<open>ValueError(f"Unsupported time unit: {unit}")\<close> for the unit \<open>u\<close>, \<open>InvalidLiteral s\<close> is the
  error of \<open>int(s)\<close> or \<open>float(s)\<close> on the string \<open>s\<close>.
\<close>

datatype value_error = UnsupportedTimeUnit json | InvalidLiteral string

datatype py_error =
    ValueError value_error
  | TypeError
  | AttributeError
  | OverflowError
  | ZeroDivisionError
  | KeyError

text \<open>\<open>bool(x)\<close>, the truth value Python gives \<open>x\<close> in a condition.\<close>

fun truthy :: "json \<Rightarrow> bool" where
  "truthy JNull = False"
| "truthy (JBool b) = b"
| "truthy (JInt n) = (n \<noteq> 0)"
| "truthy (JFloat x) = (\<not> is_zero x)"
| "truthy (JStr s) = (s \<noteq> [])"
| "truthy (JArr xs) = (xs \<noteq> [])"
| "truthy (JObj kvs) = (kvs \<noteq> [])"

text \<open>\<open>d.get(k, default)\<close> on the members of an object.\<close>

definition dict_get :: "(string \<times> json) list \<Rightarrow> string \<Rightarrow> json \<Rightarrow> json" where
  "dict_get kvs k d = (case map_of (rev kvs) k of None \<Rightarrow> d | Some v \<Rightarrow> v)"

text \<open>\<open>float(x)\<close> on a JSON value.\<close>

fun py_float :: "json \<Rightarrow> py_error + pyfloat" where
  "py_float (JFloat x) = Inr x"
| "py_float (JInt n) = (case float_of_int n of None \<Rightarrow> Inl OverflowError | Some x \<Rightarrow> Inr x)"
| "py_float (JBool b) = Inr (Finite False (if b then 1 else 0))"
| "py_float (JStr s) =
     (case float_of_str s of None \<Rightarrow> Inl (ValueError (InvalidLiteral s)) | Some x \<Rightarrow> Inr x)"
| "py_float JNull = Inl TypeError"
| "py_float (JArr xs) = Inl TypeError"
| "py_float (JObj kvs) = Inl TypeError"

text \<open>
  The items a \<open>for\<close> loop takes from a JSON value: the elements of an array, the
  characters of a string, the keys of an object; the other values are not iterable.
\<close>

fun py_iter :: "json \<Rightarrow> py_error + json list" where
  "py_iter (JArr xs) = Inr xs"
| "py_iter (JStr s) = Inr (map (\<lambda>c. JStr [c]) s)"
| "py_iter (JObj kvs) = Inr (map JStr (remdups (map fst kvs)))"
| "py_iter _ = Inl TypeError"

text \<open>\<open>x / y\<close> as Python evaluates it on two floats.\<close>

definition py_truediv :: "pyfloat \<Rightarrow> pyfloat \<Rightarrow> py_error + pyfloat" where
  "py_truediv x y = (if is_zero y then Inl ZeroDivisionError else Inr (fdiv x y))"

section \<open>\<open>to_ns\<close>\<close>

text \<open>
  \<^verbatim>\<open>
  def to_ns(value: float, unit: str) -> float:
      if unit == "ns": return value
      if unit == "us": return value * 1_000.0
      if unit == "ms": return value * 1_000_000.0
      if unit == "s":  return value * 1_000_000_000.0
      raise ValueError(f"Unsupported time unit: {unit}")
  \<close>
  \<open>main\<close> passes whatever the entry holds under \<open>time_unit\<close>, so \<open>unit\<close> is any JSON value.
\<close>

definition to_ns :: "pyfloat \<Rightarrow> json \<Rightarrow> py_error + pyfloat" where
  "to_ns value unit =
     (if unit = JStr ''ns'' then Inr value
      else if unit = JStr ''us'' then Inr (fmul value (Finite False 1000))
      else if unit = JStr ''ms'' then Inr (fmul value (Finite False 1000000))
      else if unit = JStr ''s'' then Inr (fmul value (Finite False 1000000000))
      else Inl (ValueError (UnsupportedTimeUnit unit)))"

section \<open>\<open>parse_name\<close>\<close>

text \<open>
  \<^verbatim>\<open>
  def parse_name(name: str) -> Tuple[str, int, str]:
      base, _, arg = name.partition("/")
      rows = int(arg) if arg else 0
      if "Entropy" in base: engine = "entropy"
      elif "Sqlite" in base: engine = "sqlite"
      else: engine = "other"
      if "InsertBatch" in base: case = "insert_batch"
      elif "PointSelect" in base: case = "point_select"
      else: case = base
      return case, rows, engine
  \<close>
\<close>

definition parse_name :: "nat \<Rightarrow> string \<Rightarrow> py_error + (string \<times> int \<times> string)" where
  "parse_name maxd name =
     (case str_partition name CHR ''/'' of (base, sep, arg) \<Rightarrow>
        (case (if arg \<noteq> [] then py_int maxd arg else Some 0) of
           None \<Rightarrow> Inl (ValueError (InvalidLiteral arg))
         | Some rows \<Rightarrow>
             (let engine =
                    (if sublist ''Entropy'' base then ''entropy''
                     else if sublist ''Sqlite'' base then ''sqlite''
                     else ''other'');
                  case' =
                    (if sublist ''InsertBatch'' base then ''insert_batch''
                     else if sublist ''PointSelect'' base then ''point_select''
                     else base)
              in Inr (case', rows, engine))))"

section \<open>\<open>main\<close>\<close>

subsection \<open>The aggregation loop\<close>

text \<open>
  \<open>summary: Dict[Tuple[str, int], Dict[str, float]]\<close>. A Python dictionary keeps its
  keys in insertion order, so both levels are association lists with distinct keys;
  \<open>AList.update\<close> replaces the value of a key in place and appends a new key at the end,
  as item assignment does.
\<close>

type_synonym row = "(string \<times> pyfloat) list"
type_synonym summary = "((string \<times> int) \<times> row) list"

text \<open>\<open>summary.setdefault(key, {})[engine] = ns_per_op\<close>\<close>

definition upsert :: "summary \<Rightarrow> string \<times> int \<Rightarrow> string \<Rightarrow> pyfloat \<Rightarrow> summary" where
  "upsert summary key engine ns_per_op =
     AList.update key
       (AList.update engine ns_per_op (case map_of summary key of None \<Rightarrow> [] | Some r \<Rightarrow> r))
       summary"

text \<open>
  The body of the loop over \<open>data.get("benchmarks", [])\<close>, lines 54 to 70:
  \<^verbatim>\<open>
  if entry.get("aggregate_name") or entry.get("run_type") == "aggregate": continue
  name = entry.get("name", "")
  if not name: continue
  case, rows, engine = parse_name(name)
  if engine == "other": continue
  real_time = float(entry.get("real_time", 0.0))
  unit = entry.get("time_unit", "ns")
  ns_per_op = to_ns(real_time, unit)
  key = (case, rows)
  summary.setdefault(key, {})[engine] = ns_per_op
  \<close>
  An entry that is not an object has no \<open>get\<close>, and a name that is true but not a string
  has no \<open>partition\<close>: both raise \<open>AttributeError\<close>.
\<close>

definition loop_body :: "nat \<Rightarrow> summary \<Rightarrow> json \<Rightarrow> py_error + summary" where
  "loop_body maxd summary entry =
     (case entry of
        JObj kvs \<Rightarrow>
          if truthy (dict_get kvs ''aggregate_name'' JNull)
             \<or> dict_get kvs ''run_type'' JNull = JStr ''aggregate''
          then Inr summary
          else
            (let name = dict_get kvs ''name'' (JStr [])
             in if \<not> truthy name then Inr summary
                else
                  (case name of
                     JStr n \<Rightarrow>
                       (case parse_name maxd n of
                          Inl e \<Rightarrow> Inl e
                        | Inr (case', rows, engine) \<Rightarrow>
                            if engine = ''other'' then Inr summary
                            else
                              (case py_float (dict_get kvs ''real_time'' (JFloat (Finite False 0))) of
                                 Inl e \<Rightarrow> Inl e
                               | Inr real_time \<Rightarrow>
                                   (case to_ns real_time (dict_get kvs ''time_unit'' (JStr ''ns'')) of
                                      Inl e \<Rightarrow> Inl e
                                    | Inr ns_per_op \<Rightarrow>
                                        Inr (upsert summary (case', rows) engine ns_per_op))))
                   | _ \<Rightarrow> Inl AttributeError))
      | _ \<Rightarrow> Inl AttributeError)"

text \<open>The loop: the first exception ends it.\<close>

fun aggregate :: "nat \<Rightarrow> summary \<Rightarrow> json list \<Rightarrow> py_error + summary" where
  "aggregate maxd summary [] = Inr summary"
| "aggregate maxd summary (entry # entries) =
     (case loop_body maxd summary entry of
        Inl e \<Rightarrow> Inl e
      | Inr summary' \<Rightarrow> aggregate maxd summary' entries)"

subsection \<open>Writing the table\<close>

text \<open>A field handed to \<open>csv.writer.writerow\<close>: a string, an integer or a float.\<close>

datatype cell = CStr string | CInt int | CFloat pyfloat

text \<open>\<open>row.get(engine, "")\<close>\<close>

definition row_get :: "row \<Rightarrow> string \<Rightarrow> cell" where
  "row_get r engine = (case map_of r engine of None \<Rightarrow> CStr [] | Some v \<Rightarrow> CFloat v)"

text \<open>
  Lines 80 to 82:
  \<^verbatim>\<open>
  ratio = ""
  if isinstance(entropy_ns, float) and isinstance(sqlite_ns, float) and sqlite_ns != 0.0:
      ratio = entropy_ns / sqlite_ns
  \<close>
\<close>

fun ratio_cell :: "cell \<Rightarrow> cell \<Rightarrow> py_error + cell" where
  "ratio_cell (CFloat entropy_ns) (CFloat sqlite_ns) =
     (if \<not> is_zero sqlite_ns
      then (case py_truediv entropy_ns sqlite_ns of Inl e \<Rightarrow> Inl e | Inr q \<Rightarrow> Inr (CFloat q))
      else Inr (CStr []))"
| "ratio_cell _ _ = Inr (CStr [])"

text \<open>The list written for one key, lines 76 to 84.\<close>

definition data_row :: "summary \<Rightarrow> string \<times> int \<Rightarrow> py_error + cell list" where
  "data_row summary key =
     (case map_of summary key of
        None \<Rightarrow> Inl KeyError
      | Some r \<Rightarrow>
          (let entropy_ns = row_get r ''entropy'';
               sqlite_ns = row_get r ''sqlite''
           in case ratio_cell entropy_ns sqlite_ns of
                Inl e \<Rightarrow> Inl e
              | Inr ratio \<Rightarrow> Inr [CStr (fst key), CInt (snd key), entropy_ns, sqlite_ns, ratio]))"

definition header :: "cell list" where
  "header =
     [CStr ''case'', CStr ''rows'', CStr ''entropy_ns_per_op'', CStr ''sqlite_ns_per_op'',
      CStr ''ratio'']"

text \<open>
  The line \<open>csv.writer\<close> writes for a row of several fields in the default dialect: each
  field as \<open>str\<close> gives it, in double quotes with the quotes inside doubled when it holds
  a comma, a double quote, a carriage return or a line feed, the fields joined by commas,
  the line ended by carriage return and line feed.
\<close>

definition cell_str :: "cell \<Rightarrow> string" where
  "cell_str c = (case c of CStr s \<Rightarrow> s | CInt n \<Rightarrow> int_str n | CFloat x \<Rightarrow> float_repr x)"

definition csv_field :: "string \<Rightarrow> string" where
  "csv_field s =
     (if \<exists>c \<in> set s. c = CHR '','' \<or> c = CHR 0x22 \<or> c = CHR 0x0D \<or> c = CHR 0x0A
      then [CHR 0x22] @ concat (map (\<lambda>c. if c = CHR 0x22 then [c, c] else [c]) s) @ [CHR 0x22]
      else s)"

fun join_fields :: "string list \<Rightarrow> string" where
  "join_fields [] = []"
| "join_fields [f] = f"
| "join_fields (f # g # fs) = f @ '','' @ join_fields (g # fs)"

definition csv_line :: "cell list \<Rightarrow> string" where
  "csv_line cells = join_fields (map (\<lambda>c. csv_field (cell_str c)) cells) @ [CHR 0x0D, CHR 0x0A]"

text \<open>
  The loop over \<open>sorted(summary.keys())\<close>, lines 75 to 84: \<open>out\<close> is the text written so
  far, and an exception leaves the file with it.
\<close>

fun write_rows ::
  "summary \<Rightarrow> (string \<times> int) list \<Rightarrow> string \<Rightarrow> (py_error + unit) \<times> string" where
  "write_rows summary [] out = (Inr (), out)"
| "write_rows summary (key # keys) out =
     (case data_row summary key of
        Inl e \<Rightarrow> (Inl e, out)
      | Inr cells \<Rightarrow> write_rows summary keys (out @ csv_line cells))"

text \<open>
  Tuples of a string and an integer compare lexicographically, strings by code point:
  \<open>sort\<close> on \<open>string \<times> int\<close> is \<open>sorted\<close> on the keys.
\<close>

definition emit :: "summary \<Rightarrow> (py_error + unit) \<times> string" where
  "emit summary = write_rows summary (sort (map fst summary)) (csv_line header)"

subsection \<open>The run\<close>

text \<open>
  \<open>main\<close> from line 52 on, for the document \<open>data\<close> read from the input file. The result
  is the exception that ended the run or the exit status, and the text of the output file:
  \<open>None\<close> when the run ended before \<open>open(output_path, "w")\<close>, so that the file was neither
  created nor overwritten.
\<close>

definition main :: "nat \<Rightarrow> json \<Rightarrow> (py_error + int) \<times> string option" where
  "main maxd data =
     (case data of
        JObj kvs \<Rightarrow>
          (case py_iter (dict_get kvs ''benchmarks'' (JArr [])) of
             Inl e \<Rightarrow> (Inl e, None)
           | Inr entries \<Rightarrow>
               (case aggregate maxd [] entries of
                  Inl e \<Rightarrow> (Inl e, None)
                | Inr summary \<Rightarrow>
                    (case emit summary of
                       (Inl e, out) \<Rightarrow> (Inl e, Some out)
                     | (Inr u, out) \<Rightarrow> (Inr 0, Some out))))
      | _ \<Rightarrow> (Inl AttributeError, None))"

section \<open>Notions used in the statements\<close>

text \<open>
  The condition of line 54 on an entry: it carries a true \<open>aggregate_name\<close>, or its
  \<open>run_type\<close> is \<open>"aggregate"\<close>.
\<close>

definition aggregate_marked :: "json \<Rightarrow> bool" where
  "aggregate_marked entry =
     (case entry of
        JObj kvs \<Rightarrow>
          truthy (dict_get kvs ''aggregate_name'' JNull)
          \<or> dict_get kvs ''run_type'' JNull = JStr ''aggregate''
      | _ \<Rightarrow> False)"

text \<open>
  What one pass of the loop body does with an entry, whatever the table holds: it raises,
  it skips the entry (\<open>Inr None\<close>), or it stores the value \<open>ns_per_op\<close> for an engine under
  a key (\<open>Inr (Some (key, engine, ns_per_op))\<close>). Lemma \<open>loop_body_effect\<close> shows that
  \<open>loop_body\<close> does exactly this.
\<close>

definition entry_effect ::
  "nat \<Rightarrow> json \<Rightarrow> py_error + ((string \<times> int) \<times> string \<times> pyfloat) option" where
  "entry_effect maxd entry =
     (case entry of
        JObj kvs \<Rightarrow>
          if aggregate_marked entry then Inr None
          else
            (case dict_get kvs ''name'' (JStr []) of
               JStr n \<Rightarrow>
                 if n = [] then Inr None
                 else
                   (case parse_name maxd n of
                      Inl e \<Rightarrow> Inl e
                    | Inr (case', rows, engine) \<Rightarrow>
                        if engine = ''other'' then Inr None
                        else
                          (case py_float (dict_get kvs ''real_time'' (JFloat (Finite False 0))) of
                             Inl e \<Rightarrow> Inl e
                           | Inr real_time \<Rightarrow>
                               (case to_ns real_time (dict_get kvs ''time_unit'' (JStr ''ns'')) of
                                  Inl e \<Rightarrow> Inl e
                                | Inr ns_per_op \<Rightarrow> Inr (Some ((case', rows), engine, ns_per_op)))))
             | name \<Rightarrow> if truthy name then Inl AttributeError else Inr None)
      | _ \<Rightarrow> Inl AttributeError)"

text \<open>\<open>summary[key][engine]\<close> where both keys are present, \<open>None\<close> otherwise.\<close>

definition summary_value :: "summary \<Rightarrow> string \<times> int \<Rightarrow> string \<Rightarrow> pyfloat option" where
  "summary_value summary key engine =
     (case map_of summary key of None \<Rightarrow> None | Some r \<Rightarrow> map_of r engine)"

text \<open>
  The ratio field as the specification words it: \<open>entropy_ns / sqlite_ns\<close> when both
  values are present and the sqlite value is not zero, the empty string otherwise.
\<close>

definition spec_ratio :: "row \<Rightarrow> cell" where
  "spec_ratio r =
     (case (map_of r ''entropy'', map_of r ''sqlite'') of
        (Some entropy_ns, Some sqlite_ns) \<Rightarrow>
          if is_zero sqlite_ns then CStr [] else CFloat (fdiv entropy_ns sqlite_ns)
      | _ \<Rightarrow> CStr [])"

text \<open>
  The data row of a key as the specification words it: the case, the rows, the entropy
  value or an empty field, the sqlite value or an empty field, and the ratio.
\<close>

definition spec_row :: "summary \<Rightarrow> string \<times> int \<Rightarrow> cell list" where
  "spec_row summary key =
     (case map_of summary key of
        None \<Rightarrow> []
      | Some r \<Rightarrow>
          [CStr (fst key), CInt (snd key), row_get r ''entropy'', row_get r ''sqlite'',
           spec_ratio r])"

text \<open>The part of a name after its first \<open>/\<close>, which \<open>parse_name\<close> hands to \<open>int\<close>.\<close>

definition name_arg :: "string \<Rightarrow> string" where
  "name_arg name = snd (snd (str_partition name CHR ''/''))"

text \<open>
  A valid integer literal for \<open>int\<close>: between optional white space, an optional sign and
  decimal digits, with single underscores allowed between digits.
\<close>

definition int_literal :: "string \<Rightarrow> bool" where
  "int_literal s = digit_groups (snd (split_sign (strip s)))"

text \<open>The document whose \<open>benchmarks\<close> array holds the given entries.\<close>

definition benchmarks_doc :: "json list \<Rightarrow> json" where
  "benchmarks_doc entries = JObj [(''benchmarks'', JArr entries)]"

text \<open>
  The input of the end-to-end example: the entries
  \<open>{"name": "BM_EntropyInsertBatch/10", "real_time": 100, "time_unit": "ns"}\<close> and
  \<open>{"name": "BM_SqliteInsertBatch/10", "real_time": 50, "time_unit": "us"}\<close>.
\<close>

definition example_doc :: json where
  "example_doc =
     benchmarks_doc
       [JObj [(''name'', JStr ''BM_EntropyInsertBatch/10''), (''real_time'', JInt 100),
              (''time_unit'', JStr ''ns'')],
        JObj [(''name'', JStr ''BM_SqliteInsertBatch/10''), (''real_time'', JInt 50),
              (''time_unit'', JStr ''us'')]]"

text \<open>The end of a line in the output file.\<close>

definition crlf :: string where
  "crlf = [CHR 0x0D, CHR 0x0A]"

text \<open>
  An entry whose name \<open>parse_name\<close> classifies as engine \<open>other\<close>: an object whose
  \<open>name\<close> is a string that \<open>parse_name\<close> accepts with that engine.
\<close>

definition classified_other :: "nat \<Rightarrow> json \<Rightarrow> bool" where
  "classified_other maxd entry =
     (case entry of
        JObj kvs \<Rightarrow>
          (case dict_get kvs ''name'' (JStr []) of
             JStr n \<Rightarrow> (case parse_name maxd n of Inr (c, r, g) \<Rightarrow> g = ''other'' | Inl e \<Rightarrow> False)
           | _ \<Rightarrow> False)
      | _ \<Rightarrow> False)"

section \<open>Unit conversion\<close>

lemma to_ns_instances:
  "to_ns (Finite False 1) (JStr ''us'') = Inr (Finite False 1000)"
  "to_ns (Finite False 1) (JStr ''ms'') = Inr (Finite False 1000000)"
  "to_ns (Finite False 1) (JStr ''s'') = Inr (Finite False 1000000000)"
  "to_ns (Finite False 5) (JStr ''ns'') = Inr (Finite False 5)"
  "to_ns (Finite False 50) (JStr ''us'') = Inr (Finite False 50000)"
  "to_ns (Finite False (5 / 2)) (JStr ''ms'') = Inr (Finite False 2500000)"
  "to_ns (Finite True 3) (JStr ''s'') = Inr (Finite True 3000000000)"
  "to_ns (Finite False (4519784438531359 / 70368744177664)) (JStr ''us'')
     = Inr (Finite False (8827703981506561 / 137438953472))"
  by code_simp+

text \<open>
  C2, as amended. \<open>to_ns(v, "ns")\<close> is \<open>v\<close>. For the other units the result is the float
  product of \<open>v\<close> and \<open>1000.0\<close>, \<open>1000000.0\<close> or \<open>1000000000.0\<close>: for a finite \<open>v\<close> the exact
  product rounded to the nearest float (infinity when it overflows), for an infinite \<open>v\<close>
  or \<open>nan\<close> the value itself. The result is the exact product where that is a float, as in
  \<open>to_ns(1, "us") = 1000\<close>, \<open>to_ns(1, "ms") = 1000000\<close>, \<open>to_ns(1, "s") = 1000000000\<close>,
  \<open>to_ns(5, "ns") = 5\<close>, \<open>to_ns(50, "us") = 50000\<close>, \<open>to_ns(2.5, "ms") = 2500000\<close> and
  \<open>to_ns(-3, "s") = -3000000000\<close>; \<open>to_ns(64.23, "us")\<close> is \<open>64230.00000000001\<close>.
\<close>

theorem to_ns_supported_units:
  "to_ns v (JStr ''ns'') = Inr v
   \<and> to_ns (Finite s q) (JStr ''us'') = Inr (round64 s (q * 1000))
   \<and> to_ns (Finite s q) (JStr ''ms'') = Inr (round64 s (q * 1000000))
   \<and> to_ns (Finite s q) (JStr ''s'') = Inr (round64 s (q * 1000000000))
   \<and> to_ns (Infinite s) (JStr ''us'') = Inr (Infinite s)
   \<and> to_ns (Infinite s) (JStr ''ms'') = Inr (Infinite s)
   \<and> to_ns (Infinite s) (JStr ''s'') = Inr (Infinite s)
   \<and> to_ns NaN (JStr ''us'') = Inr NaN
   \<and> to_ns NaN (JStr ''ms'') = Inr NaN
   \<and> to_ns NaN (JStr ''s'') = Inr NaN
   \<and> to_ns (Finite False 1) (JStr ''us'') = Inr (Finite False 1000)
   \<and> to_ns (Finite False 1) (JStr ''ms'') = Inr (Finite False 1000000)
   \<and> to_ns (Finite False 1) (JStr ''s'') = Inr (Finite False 1000000000)
   \<and> to_ns (Finite False 5) (JStr ''ns'') = Inr (Finite False 5)
   \<and> to_ns (Finite False 50) (JStr ''us'') = Inr (Finite False 50000)
   \<and> to_ns (Finite False (5 / 2)) (JStr ''ms'') = Inr (Finite False 2500000)
   \<and> to_ns (Finite True 3) (JStr ''s'') = Inr (Finite True 3000000000)
   \<and> to_ns (Finite False (4519784438531359 / 70368744177664)) (JStr ''us'')
       = Inr (Finite False (8827703981506561 / 137438953472))"
proof -
  have "to_ns v (JStr ''ns'') = Inr v"
    "to_ns (Finite s q) (JStr ''us'') = Inr (round64 s (q * 1000))"
    "to_ns (Finite s q) (JStr ''ms'') = Inr (round64 s (q * 1000000))"
    "to_ns (Finite s q) (JStr ''s'') = Inr (round64 s (q * 1000000000))"
    "to_ns (Infinite s) (JStr ''us'') = Inr (Infinite s)"
    "to_ns (Infinite s) (JStr ''ms'') = Inr (Infinite s)"
    "to_ns (Infinite s) (JStr ''s'') = Inr (Infinite s)"
    "to_ns NaN (JStr ''us'') = Inr NaN"
    "to_ns NaN (JStr ''ms'') = Inr NaN"
    "to_ns NaN (JStr ''s'') = Inr NaN"
    by (simp_all add: to_ns_def)
  with to_ns_instances show ?thesis by blast
qed

text \<open>
  The claim as stated, with the exact product \<open>v * 1000\<close>, fails at \<open>v = 64.23\<close>: the float
  nearest to 64.23 times 1000 is not a float, and \<open>to_ns\<close> returns its rounding.
\<close>

theorem to_ns_product_rounded:
  "to_ns (Finite False (4519784438531359 / 70368744177664)) (JStr ''us'')
     \<noteq> Inr (Finite False (4519784438531359 / 70368744177664 * 1000))"
  by code_simp

section \<open>The aggregation loop\<close>

lemma loop_body_effect:
  "loop_body maxd s e =
     (case entry_effect maxd e of
        Inl x \<Rightarrow> Inl x
      | Inr None \<Rightarrow> Inr s
      | Inr (Some (k, g, v)) \<Rightarrow> Inr (upsert s k g v))"
  by (simp add: loop_body_def entry_effect_def aggregate_marked_def Let_def
      split: json.split sum.split prod.split option.split)

lemma summary_value_upsert:
  "summary_value (upsert s k g v) k' g' =
     (if k' = k \<and> g' = g then Some v else summary_value s k' g')"
  by (simp add: summary_value_def upsert_def update_conv' split: option.split)

lemma aggregate_append:
  "aggregate maxd s (xs @ ys) =
     (case aggregate maxd s xs of Inl e \<Rightarrow> Inl e | Inr s' \<Rightarrow> aggregate maxd s' ys)"
  by (induction xs arbitrary: s) (simp_all split: sum.split)

lemma keys_upsert: "fst ` set (upsert s k g v) = insert k (fst ` set s)"
  by (simp add: upsert_def AList.dom_update)

lemma distinct_upsert: "distinct (map fst s) \<Longrightarrow> distinct (map fst (upsert s k g v))"
  by (simp add: upsert_def distinct_update)

lemma aggregate_no_writer:
  "aggregate maxd s es = Inr s' \<Longrightarrow>
   \<forall>e \<in> set es. \<forall>v. entry_effect maxd e \<noteq> Inr (Some (k, g, v)) \<Longrightarrow>
   summary_value s' k g = summary_value s k g"
proof (induction es arbitrary: s)
  case Nil
  then show ?case by simp
next
  case (Cons e es)
  from Cons.prems(1) obtain s1 where
    s1: "loop_body maxd s e = Inr s1" and rest: "aggregate maxd s1 es = Inr s'"
    by (auto split: sum.splits)
  from Cons.prems(2) have no: "\<forall>v. entry_effect maxd e \<noteq> Inr (Some (k, g, v))"
    and no': "\<forall>e \<in> set es. \<forall>v. entry_effect maxd e \<noteq> Inr (Some (k, g, v))"
    by simp_all
  have "summary_value s1 k g = summary_value s k g"
    using s1 no
    by (auto simp: loop_body_effect summary_value_upsert split: sum.splits option.splits)
  with Cons.IH [OF rest no'] show ?case by simp
qed

lemma aggregate_raises:
  "e \<in> set es \<Longrightarrow> entry_effect maxd e = Inl x \<Longrightarrow> \<exists>err. aggregate maxd s es = Inl err"
proof (induction es arbitrary: s)
  case Nil
  then show ?case by simp
next
  case (Cons a es)
  show ?case
  proof (cases "loop_body maxd s a")
    case (Inl err)
    then show ?thesis by simp
  next
    case (Inr s1)
    with Cons.prems have "e \<in> set es"
      by (auto simp: loop_body_effect)
    from Cons.IH [OF this Cons.prems(2)] Inr show ?thesis by simp
  qed
qed

lemma main_benchmarks_doc:
  "main maxd (benchmarks_doc es) =
     (case aggregate maxd [] es of
        Inl e \<Rightarrow> (Inl e, None)
      | Inr summary \<Rightarrow>
          (case emit summary of
             (Inl e, out) \<Rightarrow> (Inl e, Some out)
           | (Inr u, out) \<Rightarrow> (Inr 0, Some out)))"
  by (simp add: main_def benchmarks_doc_def dict_get_def)

lemma aggregate_filter_marked:
  "aggregate maxd s (filter (\<lambda>e. \<not> aggregate_marked e) es) = aggregate maxd s es"
proof (induction es arbitrary: s)
  case Nil
  show ?case by simp
next
  case (Cons e es)
  show ?case
  proof (cases "aggregate_marked e")
    case True
    then have "loop_body maxd s e = Inr s"
      by (cases e) (auto simp: loop_body_effect entry_effect_def aggregate_marked_def)
    with True Cons.IH show ?thesis by simp
  next
    case False
    with Cons.IH show ?thesis by (simp split: sum.split)
  qed
qed

section \<open>What the table holds\<close>

text \<open>
  C6. Take two entries that the loop does not skip and that give the same key
  \<open>(case, rows)\<close> and the same engine with different values. Processing the later one is never
  an error: whatever the table holds, it stores the later value under that key and engine
  and changes nothing else. So the table right after the later entry holds its value, not
  the earlier one's, and so does the table of the completed run when no entry after the
  later one writes that key and engine again.
\<close>

theorem last_write_wins:
  assumes earlier: "entry_effect maxd earlier = Inr (Some (key, engine, v))"
    and later: "entry_effect maxd later = Inr (Some (key, engine, w))"
    and differ: "v \<noteq> w"
  shows "loop_body maxd s later = Inr (upsert s key engine w)
    \<and> summary_value (upsert s key engine w) key engine = Some w
    \<and> (key' \<noteq> key \<or> engine' \<noteq> engine \<longrightarrow>
          summary_value (upsert s key engine w) key' engine' = summary_value s key' engine')
    \<and> (aggregate maxd [] (pre @ earlier # mid) = Inr t \<longrightarrow>
          aggregate maxd [] (pre @ earlier # mid @ [later]) = Inr (upsert t key engine w))
    \<and> (aggregate maxd [] (pre @ earlier # mid @ [later]) = Inr t' \<longrightarrow>
          summary_value t' key engine = Some w \<and> summary_value t' key engine \<noteq> Some v)
    \<and> (aggregate maxd [] (pre @ earlier # mid @ later # post) = Inr summary
        \<and> (\<forall>e \<in> set post. \<forall>x. entry_effect maxd e \<noteq> Inr (Some (key, engine, x)))
        \<longrightarrow> summary_value summary key engine = Some w
            \<and> summary_value summary key engine \<noteq> Some v)"
proof -
  have body: "loop_body maxd s later = Inr (upsert s key engine w)" for s
    by (simp add: loop_body_effect later)
  have step: "aggregate maxd [] (pre @ earlier # mid @ [later]) = Inr (upsert t key engine w)"
    if "aggregate maxd [] (pre @ earlier # mid) = Inr t" for t
  proof -
    have "aggregate maxd [] ((pre @ earlier # mid) @ [later])
        = (case aggregate maxd [] (pre @ earlier # mid) of
             Inl x \<Rightarrow> Inl x
           | Inr s' \<Rightarrow> aggregate maxd s' [later])"
      by (rule aggregate_append)
    with that show ?thesis by (simp add: body)
  qed
  have after: "summary_value t' key engine = Some w"
    if "aggregate maxd [] (pre @ earlier # mid @ [later]) = Inr t'" for t'
  proof -
    have "aggregate maxd [] ((pre @ earlier # mid) @ [later]) = Inr t'"
      using that by simp
    then obtain t where "aggregate maxd t [later] = Inr t'"
      unfolding aggregate_append by (auto split: sum.splits)
    then have "t' = upsert t key engine w"
      by (simp add: body)
    then show ?thesis
      by (simp add: summary_value_upsert)
  qed
  have final: "summary_value summary key engine = Some w"
    if run: "aggregate maxd [] (pre @ earlier # mid @ later # post) = Inr summary"
      and none: "\<forall>e \<in> set post. \<forall>x. entry_effect maxd e \<noteq> Inr (Some (key, engine, x))"
  proof -
    have "aggregate maxd [] ((pre @ earlier # mid) @ later # post) = Inr summary"
      using run by simp
    then obtain t where "aggregate maxd t (later # post) = Inr summary"
      unfolding aggregate_append by (auto split: sum.splits)
    then have "aggregate maxd (upsert t key engine w) post = Inr summary"
      by (simp add: body)
    from aggregate_no_writer [OF this none] show ?thesis
      by (simp add: summary_value_upsert)
  qed
  have other: "summary_value (upsert s key engine w) key' engine' = summary_value s key' engine'"
    if "key' \<noteq> key \<or> engine' \<noteq> engine"
    using that by (auto simp: summary_value_upsert)
  from body step after final other differ show ?thesis
    by (simp add: summary_value_upsert)
qed

text \<open>
  The entries \<open>{"name": "BM_EntropyInsertBatch/5", "real_time": 1.0}\<close> and the same with
  \<open>2.0\<close>: the table holds 2.0.
\<close>

theorem last_write_wins_example:
  "entry_effect 4300
     (JObj [(''name'', JStr ''BM_EntropyInsertBatch/5''), (''real_time'', JFloat (Finite False 1))])
     = Inr (Some ((''insert_batch'', 5), ''entropy'', Finite False 1))
   \<and> entry_effect 4300
     (JObj [(''name'', JStr ''BM_EntropyInsertBatch/5''), (''real_time'', JFloat (Finite False 2))])
     = Inr (Some ((''insert_batch'', 5), ''entropy'', Finite False 2))
   \<and> aggregate 4300 []
       [JObj [(''name'', JStr ''BM_EntropyInsertBatch/5''), (''real_time'', JFloat (Finite False 1))],
        JObj [(''name'', JStr ''BM_EntropyInsertBatch/5''), (''real_time'', JFloat (Finite False 2))]]
     = Inr [((''insert_batch'', 5), [(''entropy'', Finite False 2)])]"
proof -
  let ?a = "JObj [(''name'', JStr ''BM_EntropyInsertBatch/5''),
    (''real_time'', JFloat (Finite False 1))]"
  let ?b = "JObj [(''name'', JStr ''BM_EntropyInsertBatch/5''),
    (''real_time'', JFloat (Finite False 2))]"
  have a: "entry_effect 4300 ?a = Inr (Some ((''insert_batch'', 5), ''entropy'', Finite False 1))"
    by code_simp
  have b: "entry_effect 4300 ?b = Inr (Some ((''insert_batch'', 5), ''entropy'', Finite False 2))"
    by code_simp
  have d: "Finite False 1 \<noteq> Finite False 2"
    by simp
  have first: "aggregate 4300 [] ([] @ ?a # []) = Inr [((''insert_batch'', 5), [(''entropy'', Finite False 1)])]"
    by (simp add: loop_body_effect a upsert_def)
  have u: "upsert [((''insert_batch'', 5), [(''entropy'', Finite False 1)])] (''insert_batch'', 5)
      ''entropy'' (Finite False 2) = [((''insert_batch'', 5), [(''entropy'', Finite False 2)])]"
    by (simp add: upsert_def)
  from last_write_wins [OF a b d, where pre = "[]" and mid = "[]"
      and t = "[((''insert_batch'', 5), [(''entropy'', Finite False 1)])]"] first
  have "aggregate 4300 [] ([] @ ?a # [] @ [?b])
      = Inr (upsert [((''insert_batch'', 5), [(''entropy'', Finite False 1)])] (''insert_batch'', 5)
      ''entropy'' (Finite False 2))"
    by blast
  with a b u show ?thesis
    by (simp del: aggregate.simps)
qed

lemma loop_body_marked: "aggregate_marked e \<Longrightarrow> loop_body maxd s e = Inr s"
  by (cases e) (auto simp: loop_body_effect entry_effect_def aggregate_marked_def)

lemma aggregate_drop_marked:
  "aggregate_marked e \<Longrightarrow>
   aggregate maxd s (pre @ e # post) = aggregate maxd s (pre @ post)"
  by (simp add: aggregate_append loop_body_marked split: sum.split)

lemma emit_empty: "emit [] = (Inr (), csv_line header)"
  by (simp add: emit_def)

lemma marked_instances:
  "loop_body 4300 []
     (JObj [(''name'', JStr ''BM_EntropyInsertBatch/10''), (''aggregate_name'', JStr ''mean'')])
     = Inr []"
  "loop_body 4300 []
     (JObj [(''name'', JStr ''BM_EntropyInsertBatch/10''), (''run_type'', JStr ''aggregate'')])
     = Inr []"
  "loop_body 4300 []
     (JObj [(''name'', JStr ''BM_EntropyInsertBatch/10''), (''run_type'', JStr ''iteration'')])
     = Inr [((''insert_batch'', 10), [(''entropy'', Finite False 0)])]"
  by code_simp+

text \<open>
  C7. An entry marked as an aggregate (a true \<open>aggregate_name\<close>, or \<open>run_type\<close> equal to
  \<open>"aggregate"\<close>) is skipped whatever its name and engine: the loop body leaves the table as
  it is, the loop and the whole run give the same result with the entry removed, and the
  same result on the input with all marked entries removed. When every entry is marked the
  table is empty and the output is the header line alone. So an entry named
  \<open>BM_EntropyInsertBatch/10\<close> is skipped with the \<open>aggregate_name\<close> \<open>mean\<close> alone and with the
  \<open>run_type\<close> \<open>aggregate\<close> alone, and is stored with the \<open>run_type\<close> \<open>iteration\<close>.
\<close>

theorem aggregate_entries_skipped:
  "(aggregate_marked e \<longrightarrow> loop_body maxd summary e = Inr summary)
   \<and> (truthy (dict_get kvs ''aggregate_name'' JNull) \<longrightarrow>
        loop_body maxd summary (JObj kvs) = Inr summary)
   \<and> (dict_get kvs ''run_type'' JNull = JStr ''aggregate'' \<longrightarrow>
        loop_body maxd summary (JObj kvs) = Inr summary)
   \<and> (aggregate_marked e \<longrightarrow>
        aggregate maxd summary (pre @ e # post) = aggregate maxd summary (pre @ post)
        \<and> main maxd (benchmarks_doc (pre @ e # post)) = main maxd (benchmarks_doc (pre @ post)))
   \<and> aggregate maxd summary (filter (\<lambda>e. \<not> aggregate_marked e) es) = aggregate maxd summary es
   \<and> main maxd (benchmarks_doc (filter (\<lambda>e. \<not> aggregate_marked e) es))
       = main maxd (benchmarks_doc es)
   \<and> ((\<forall>e \<in> set es. aggregate_marked e) \<longrightarrow>
        aggregate maxd [] es = Inr []
        \<and> main maxd (benchmarks_doc es) = (Inr 0, Some (csv_line header)))
   \<and> loop_body 4300 []
       (JObj [(''name'', JStr ''BM_EntropyInsertBatch/10''), (''aggregate_name'', JStr ''mean'')])
       = Inr []
   \<and> loop_body 4300 []
       (JObj [(''name'', JStr ''BM_EntropyInsertBatch/10''), (''run_type'', JStr ''aggregate'')])
       = Inr []
   \<and> loop_body 4300 []
       (JObj [(''name'', JStr ''BM_EntropyInsertBatch/10''), (''run_type'', JStr ''iteration'')])
       = Inr [((''insert_batch'', 10), [(''entropy'', Finite False 0)])]"
proof -
  have named: "loop_body maxd summary (JObj kvs) = Inr summary"
    if "truthy (dict_get kvs ''aggregate_name'' JNull)"
    using that by (simp add: loop_body_marked aggregate_marked_def)
  have typed: "loop_body maxd summary (JObj kvs) = Inr summary"
    if "dict_get kvs ''run_type'' JNull = JStr ''aggregate''"
    using that by (simp add: loop_body_marked aggregate_marked_def)
  have all: "aggregate maxd [] es = Inr []
      \<and> main maxd (benchmarks_doc es) = (Inr 0, Some (csv_line header))"
    if "\<forall>e \<in> set es. aggregate_marked e"
  proof -
    from that have "filter (\<lambda>e. \<not> aggregate_marked e) es = []"
      by (simp add: filter_empty_conv)
    with aggregate_filter_marked [of maxd "[]" es] have "aggregate maxd [] es = Inr []"
      by simp
    then show ?thesis
      by (simp add: main_benchmarks_doc emit_empty)
  qed
  from named typed all show ?thesis
    by (simp add: loop_body_marked aggregate_drop_marked aggregate_filter_marked
        main_benchmarks_doc emit_empty marked_instances)
qed

text \<open>
  A marked entry with an \<open>Entropy\<close> name and a timing: the output is the header alone.
\<close>

theorem aggregate_entries_skipped_example:
  "aggregate_marked
     (JObj [(''name'', JStr ''BM_EntropyInsertBatch/10_mean''), (''run_type'', JStr ''aggregate''),
            (''aggregate_name'', JStr ''mean''), (''real_time'', JFloat (Finite False 7))])
   \<and> main 4300 (benchmarks_doc
       [JObj [(''name'', JStr ''BM_EntropyInsertBatch/10_mean''), (''run_type'', JStr ''aggregate''),
              (''aggregate_name'', JStr ''mean''), (''real_time'', JFloat (Finite False 7))]])
     = (Inr 0, Some (''case,rows,entropy_ns_per_op,sqlite_ns_per_op,ratio'' @ crlf))"
proof -
  let ?e = "JObj [(''name'', JStr ''BM_EntropyInsertBatch/10_mean''),
    (''run_type'', JStr ''aggregate''), (''aggregate_name'', JStr ''mean''),
    (''real_time'', JFloat (Finite False 7))]"
  have m: "aggregate_marked ?e"
    by code_simp
  have h: "csv_line header = ''case,rows,entropy_ns_per_op,sqlite_ns_per_op,ratio'' @ crlf"
    by code_simp
  from m have "\<forall>e \<in> set [?e]. aggregate_marked e"
    by simp
  with aggregate_entries_skipped [where es = "[?e]" and maxd = 4300]
  have "main 4300 (benchmarks_doc [?e]) = (Inr 0, Some (csv_line header))"
    by blast
  with m h show ?thesis
    by simp
qed

lemma parse_name_engine:
  "parse_name maxd n = Inr (c, r, g) \<Longrightarrow> g = ''entropy'' \<or> g = ''sqlite'' \<or> g = ''other''"
  by (auto simp: parse_name_def Let_def split: prod.splits option.splits if_splits)

lemma entry_effect_engine:
  "entry_effect maxd e = Inr (Some (k, g, v)) \<Longrightarrow> g = ''entropy'' \<or> g = ''sqlite''"
  by (auto simp: entry_effect_def split: json.splits sum.splits prod.splits if_splits
      dest: parse_name_engine)

lemma aggregate_engines:
  "aggregate maxd s es = Inr s' \<Longrightarrow> summary_value s' k g = Some v \<Longrightarrow>
   summary_value s k g = None \<Longrightarrow> g = ''entropy'' \<or> g = ''sqlite''"
proof (induction es arbitrary: s)
  case Nil
  then show ?case by simp
next
  case (Cons e es)
  from Cons.prems(1) obtain s1 where
    s1: "loop_body maxd s e = Inr s1" and rest: "aggregate maxd s1 es = Inr s'"
    by (auto split: sum.splits)
  show ?case
  proof (cases "summary_value s1 k g")
    case None
    from Cons.IH [OF rest Cons.prems(2) None] show ?thesis .
  next
    case (Some w)
    with s1 Cons.prems(3) show ?thesis
      by (auto simp: loop_body_effect summary_value_upsert
          split: sum.splits option.splits prod.splits if_splits dest: entry_effect_engine)
  qed
qed

lemma aggregate_distinct:
  "aggregate maxd s es = Inr s' \<Longrightarrow> distinct (map fst s) \<Longrightarrow> distinct (map fst s')"
proof (induction es arbitrary: s)
  case Nil
  then show ?case by simp
next
  case (Cons e es)
  from Cons.prems(1) obtain s1 where
    s1: "loop_body maxd s e = Inr s1" and rest: "aggregate maxd s1 es = Inr s'"
    by (auto split: sum.splits)
  from s1 Cons.prems(2) have "distinct (map fst s1)"
    by (auto simp: loop_body_effect distinct_upsert split: sum.splits option.splits)
  from Cons.IH [OF rest this] show ?case .
qed

lemma parse_name_other:
  "parse_name maxd n = Inr (c, r, g) \<Longrightarrow>
   (g = ''other'')
     = (\<not> sublist ''Entropy'' (fst (str_partition n CHR ''/''))
        \<and> \<not> sublist ''Sqlite'' (fst (str_partition n CHR ''/'')))"
  by (auto simp: parse_name_def Let_def split: prod.splits option.splits if_splits)

lemma loop_body_other:
  "dict_get kvs ''name'' (JStr []) = JStr n \<Longrightarrow> parse_name maxd n = Inr (c, r, ''other'') \<Longrightarrow>
   loop_body maxd s (JObj kvs) = Inr s"
  by (simp add: loop_body_effect entry_effect_def)

lemma loop_body_classified_other:
  "classified_other maxd e \<Longrightarrow> loop_body maxd s e = Inr s"
  by (auto simp: classified_other_def loop_body_other
      split: json.splits sum.splits prod.splits)

lemma aggregate_filter_other:
  "aggregate maxd s (filter (\<lambda>e. \<not> classified_other maxd e) es) = aggregate maxd s es"
proof (induction es arbitrary: s)
  case Nil
  show ?case by simp
next
  case (Cons e es)
  show ?case
  proof (cases "classified_other maxd e")
    case True
    with Cons.IH show ?thesis by (simp add: loop_body_classified_other)
  next
    case False
    with Cons.IH show ?thesis by (simp split: sum.split)
  qed
qed

lemma loop_body_no_token:
  assumes "dict_get kvs ''name'' (JStr []) = JStr n"
    and "\<not> sublist ''Entropy'' (fst (str_partition n CHR ''/''))"
    and "\<not> sublist ''Sqlite'' (fst (str_partition n CHR ''/''))"
  shows "loop_body maxd s (JObj kvs) = Inr s \<or> (\<exists>e. loop_body maxd s (JObj kvs) = Inl e)"
proof (cases "parse_name maxd n")
  case (Inl e)
  with assms(1) show ?thesis
    by (auto simp: loop_body_effect entry_effect_def)
next
  case (Inr t)
  obtain c r g where "t = (c, r, g)"
    by (cases t)
  with Inr have p: "parse_name maxd n = Inr (c, r, g)"
    by simp
  from parse_name_other [OF p] assms(2,3) have "g = ''other''"
    by simp
  with p loop_body_other [OF assms(1)] show ?thesis
    by simp
qed

lemma other_example: "parse_name 4300 ''BM_Other/10'' = Inr (''BM_Other'', 10, ''other'')"
  by code_simp

text \<open>
  C8. \<open>parse_name\<close> gives the engine \<open>other\<close> exactly when the base of the name (the part
  before its first \<open>/\<close>) contains neither \<open>Entropy\<close> nor \<open>Sqlite\<close>, as for \<open>BM_Other/10\<close>. An
  entry so classified is dropped: the loop body leaves the table as it is, and the loop
  and the whole run give the same result on the input with all such entries removed. An
  entry whose base contains neither token never changes the table, also when \<open>int\<close> rejects
  the rest of its name and the run ends there. Every
  value in the table of a completed run is stored under the engine \<open>entropy\<close> or \<open>sqlite\<close>:
  a row maps no other engine name.
\<close>

theorem other_engine_dropped:
  "(parse_name maxd n = Inr (c, r, g) \<longrightarrow>
      (g = ''other'')
        = (\<not> sublist ''Entropy'' (fst (str_partition n CHR ''/''))
           \<and> \<not> sublist ''Sqlite'' (fst (str_partition n CHR ''/''))))
   \<and> parse_name 4300 ''BM_Other/10'' = Inr (''BM_Other'', 10, ''other'')
   \<and> (dict_get kvs ''name'' (JStr []) = JStr n \<and> parse_name maxd n = Inr (c, r, ''other'')
      \<longrightarrow> loop_body maxd s (JObj kvs) = Inr s)
   \<and> (dict_get kvs ''name'' (JStr []) = JStr n
        \<and> \<not> sublist ''Entropy'' (fst (str_partition n CHR ''/''))
        \<and> \<not> sublist ''Sqlite'' (fst (str_partition n CHR ''/''))
      \<longrightarrow> loop_body maxd s (JObj kvs) = Inr s \<or> (\<exists>e. loop_body maxd s (JObj kvs) = Inl e))
   \<and> aggregate maxd s (filter (\<lambda>e. \<not> classified_other maxd e) es) = aggregate maxd s es
   \<and> main maxd (benchmarks_doc (filter (\<lambda>e. \<not> classified_other maxd e) es))
       = main maxd (benchmarks_doc es)
   \<and> (aggregate maxd [] es = Inr summary \<and> summary_value summary key engine = Some v
      \<longrightarrow> engine = ''entropy'' \<or> engine = ''sqlite'')
   \<and> (aggregate maxd [] es = Inr summary \<and> (key, row) \<in> set summary
      \<longrightarrow> fst ` set row \<subseteq> {''entropy'', ''sqlite''})"
proof -
  have engines: "engine = ''entropy'' \<or> engine = ''sqlite''"
    if "aggregate maxd [] es = Inr summary" "summary_value summary key engine = Some v"
    for key engine v
    using aggregate_engines [OF that] by (simp add: summary_value_def)
  have rows: "fst ` set row \<subseteq> {''entropy'', ''sqlite''}"
    if run: "aggregate maxd [] es = Inr summary" and row: "(key, row) \<in> set summary"
  proof
    fix g
    assume "g \<in> fst ` set row"
    then obtain x where "map_of row g = Some x"
      by (auto dest: weak_map_of_SomeI)
    moreover have "distinct (map fst summary)"
      using aggregate_distinct [OF run] by simp
    with row have "map_of summary key = Some row"
      by simp
    ultimately have "summary_value summary key g = Some x"
      by (simp add: summary_value_def)
    from engines [OF run this] show "g \<in> {''entropy'', ''sqlite''}"
      by auto
  qed
  have "parse_name maxd n = Inr (c, r, g) \<longrightarrow>
      (g = ''other'')
        = (\<not> sublist ''Entropy'' (fst (str_partition n CHR ''/''))
           \<and> \<not> sublist ''Sqlite'' (fst (str_partition n CHR ''/'')))"
    using parse_name_other [of maxd n c r g] by blast
  moreover note other_example
  moreover have "dict_get kvs ''name'' (JStr []) = JStr n \<and> parse_name maxd n = Inr (c, r, ''other'')
      \<longrightarrow> loop_body maxd s (JObj kvs) = Inr s"
    using loop_body_other [of kvs n maxd c r s] by blast
  moreover have "dict_get kvs ''name'' (JStr []) = JStr n
        \<and> \<not> sublist ''Entropy'' (fst (str_partition n CHR ''/''))
        \<and> \<not> sublist ''Sqlite'' (fst (str_partition n CHR ''/''))
      \<longrightarrow> loop_body maxd s (JObj kvs) = Inr s \<or> (\<exists>e. loop_body maxd s (JObj kvs) = Inl e)"
    using loop_body_no_token [of kvs n maxd s] by blast
  moreover note aggregate_filter_other [of maxd s es]
  moreover have "main maxd (benchmarks_doc (filter (\<lambda>e. \<not> classified_other maxd e) es))
       = main maxd (benchmarks_doc es)"
    by (simp add: main_benchmarks_doc aggregate_filter_other)
  moreover have "aggregate maxd [] es = Inr summary \<and> summary_value summary key engine = Some v
      \<longrightarrow> engine = ''entropy'' \<or> engine = ''sqlite''"
    using engines by blast
  moreover have "aggregate maxd [] es = Inr summary \<and> (key, row) \<in> set summary
      \<longrightarrow> fst ` set row \<subseteq> {''entropy'', ''sqlite''}"
    using rows by blast
  ultimately show ?thesis
    by (intro conjI)
qed

text \<open>
  The entry \<open>{"name": "BM_Other/10", "real_time": 5.0}\<close> leaves the empty table empty.
\<close>

theorem other_engine_dropped_example:
  "dict_get [(''name'', JStr ''BM_Other/10''), (''real_time'', JFloat (Finite False 5))]
     ''name'' (JStr []) = JStr ''BM_Other/10''
   \<and> parse_name 4300 ''BM_Other/10'' = Inr (''BM_Other'', 10, ''other'')
   \<and> loop_body 4300 []
       (JObj [(''name'', JStr ''BM_Other/10''), (''real_time'', JFloat (Finite False 5))])
     = Inr []"
proof -
  let ?kvs = "[(''name'', JStr ''BM_Other/10''), (''real_time'', JFloat (Finite False 5))]"
  have a: "dict_get ?kvs ''name'' (JStr []) = JStr ''BM_Other/10''"
    by code_simp
  have b: "parse_name 4300 ''BM_Other/10'' = Inr (''BM_Other'', 10, ''other'')"
    by code_simp
  from other_engine_dropped [where kvs = ?kvs and n = "''BM_Other/10''" and maxd = 4300
      and c = "''BM_Other''" and r = 10 and s = "[]"] a b
  have "loop_body 4300 [] (JObj ?kvs) = Inr []"
    by blast
  with a b show ?thesis
    by simp
qed

section \<open>Errors and the rows of a key\<close>

lemma main_aborts:
  "e \<in> set es \<Longrightarrow> entry_effect maxd e = Inl x \<Longrightarrow>
   \<exists>err. main maxd (benchmarks_doc es) = (Inl err, None)"
  using aggregate_raises [of e es maxd x "[]"] by (auto simp: main_benchmarks_doc)

lemma main_aborts_at:
  "aggregate maxd [] pre = Inr s \<Longrightarrow> entry_effect maxd e = Inl x \<Longrightarrow>
   main maxd (benchmarks_doc (pre @ e # post)) = (Inl x, None)"
  by (simp add: main_benchmarks_doc aggregate_append loop_body_effect)

lemma py_int_not_literal: "\<not> int_literal s \<Longrightarrow> py_int maxd s = None"
  by (auto simp: py_int_def int_literal_def Let_def split: prod.splits)

lemma py_int_literal: "py_int maxd s = Some n \<Longrightarrow> int_literal s"
  by (auto simp: py_int_def int_literal_def Let_def split: prod.splits if_splits)

lemma parse_name_fails:
  assumes "name_arg name \<noteq> []" "\<not> int_literal (name_arg name)"
  shows "parse_name maxd name = Inl (ValueError (InvalidLiteral (name_arg name)))"
proof -
  obtain base sep arg where p: "str_partition name CHR ''/'' = (base, sep, arg)"
    by (cases "str_partition name CHR ''/''")
  with assms have "arg \<noteq> []" "py_int maxd arg = None"
    by (simp_all add: name_arg_def py_int_not_literal)
  with p show ?thesis
    by (simp add: parse_name_def name_arg_def)
qed

lemma parse_name_returns:
  assumes "parse_name maxd name = Inr r"
  shows "name_arg name = [] \<or> int_literal (name_arg name)"
proof -
  obtain base sep arg where p: "str_partition name CHR ''/'' = (base, sep, arg)"
    by (cases "str_partition name CHR ''/''")
  with assms have "arg = [] \<or> (\<exists>n. py_int maxd arg = Some n)"
    by (auto simp: parse_name_def split: option.splits if_splits)
  with p show ?thesis
    by (auto simp: name_arg_def dest: py_int_literal)
qed

lemma name_arg_abc: "name_arg ''BM_EntropyInsertBatch/abc'' = ''abc''"
  by code_simp

lemma abc_not_literal: "\<not> int_literal ''abc''"
  by code_simp

lemma entry_effect_bad_name:
  assumes "\<not> aggregate_marked (JObj kvs)" "dict_get kvs ''name'' (JStr []) = JStr name"
    "name_arg name \<noteq> []" "\<not> int_literal (name_arg name)"
  shows "entry_effect maxd (JObj kvs) = Inl (ValueError (InvalidLiteral (name_arg name)))"
proof -
  from assms(3) have "name \<noteq> []"
    by (auto simp: name_arg_def str_partition_def)
  with assms show ?thesis
    by (simp add: entry_effect_def parse_name_fails)
qed

lemma length_strip: "length (strip s) \<le> length s"
proof -
  have "length (strip s) = length (dropWhile is_space (rev (dropWhile is_space s)))"
    by (simp add: strip_def)
  also have "\<dots> \<le> length (rev (dropWhile is_space s))"
    by (rule length_dropWhile_le)
  also have "\<dots> \<le> length s"
    by (simp add: length_dropWhile_le)
  finally show ?thesis .
qed

lemma length_split_sign: "length (snd (split_sign s)) \<le> length s"
  by (simp add: split_sign_def split: list.split)

lemma py_int_accepts:
  assumes "int_literal s" and "maxd = 0 \<or> length s \<le> maxd"
  shows "\<exists>n. py_int maxd s = Some n"
proof -
  obtain neg body where sp: "split_sign (strip s) = (neg, body)"
    by (cases "split_sign (strip s)")
  with assms(1) have groups: "digit_groups body"
    by (simp add: int_literal_def)
  have "length (filter is_digit body) \<le> length body"
    by (rule length_filter_le)
  also have "\<dots> \<le> length (strip s)"
    using length_split_sign [of "strip s"] sp by simp
  also have "\<dots> \<le> length s"
    by (rule length_strip)
  finally have "\<not> (0 < maxd \<and> maxd < length (filter is_digit body))"
    using assms(2) by auto
  with sp groups show ?thesis
    by (simp add: py_int_def Let_def)
qed

lemma parse_name_empty_arg:
  assumes "name_arg name = []"
  shows "\<exists>c g. parse_name maxd name = Inr (c, 0, g)"
proof -
  obtain base sep arg where p: "str_partition name CHR ''/'' = (base, sep, arg)"
    by (cases "str_partition name CHR ''/''")
  with assms have "arg = []"
    by (simp add: name_arg_def)
  with p show ?thesis
    by (simp add: parse_name_def Let_def)
qed

lemma parse_name_accepts:
  assumes "int_literal (name_arg name)" and "maxd = 0 \<or> length (name_arg name) \<le> maxd"
  shows "\<exists>c r g. parse_name maxd name = Inr (c, r, g)"
proof -
  obtain base sep arg where p: "str_partition name CHR ''/'' = (base, sep, arg)"
    by (cases "str_partition name CHR ''/''")
  then have arg: "name_arg name = arg"
    by (simp add: name_arg_def)
  from py_int_accepts [OF assms] arg obtain n where "py_int maxd arg = Some n"
    by auto
  with p show ?thesis
    by (simp add: parse_name_def Let_def)
qed

lemma parse_name_instances:
  "parse_name 4300 ''BM_EntropyInsertBatch/abc'' = Inl (ValueError (InvalidLiteral ''abc''))"
  "parse_name 4300 ''BM_EntropyInsertBatch/1.5'' = Inl (ValueError (InvalidLiteral ''1.5''))"
  "parse_name 4300 ''BM_EntropyInsertBatch/10/20'' = Inl (ValueError (InvalidLiteral ''10/20''))"
  "parse_name 4300 ''BM_EntropyInsertBatch/10'' = Inr (''insert_batch'', 10, ''entropy'')"
  "parse_name 4300 ''BM_EntropyInsertBatch'' = Inr (''insert_batch'', 0, ''entropy'')"
  "parse_name 4300 ''BM_EntropyInsertBatch/'' = Inr (''insert_batch'', 0, ''entropy'')"
  "parse_name 4300 ''BM_SqlitePointSelect/1_000'' = Inr (''point_select'', 1000, ''sqlite'')"
  by code_simp+

text \<open>
  C10, as amended. When the part of a name after its first \<open>/\<close> is not empty and is not a
  valid integer literal, as in \<open>BM_EntropyInsertBatch/abc\<close>, \<open>parse_name\<close> raises the
  \<open>ValueError\<close> of \<open>int\<close>, as it does for \<open>1.5\<close> and \<open>10/20\<close>; it returns only when that part is
  empty or a valid integer literal, and it does return when the part is empty (with rows
  0) and when it is a valid literal no longer than the digit limit, as for \<open>10\<close> and
  \<open>1_000\<close>. An entry with such a name that the loop does not skip as an aggregate ends the
  run with an exception and no output file: with this very \<open>ValueError\<close> when the entries
  before it were processed.
\<close>

theorem parse_name_invalid_rows:
  "(name_arg name \<noteq> [] \<and> \<not> int_literal (name_arg name)
      \<longrightarrow> parse_name maxd name = Inl (ValueError (InvalidLiteral (name_arg name))))
   \<and> ((\<exists>r. parse_name maxd name = Inr r) \<longrightarrow> name_arg name = [] \<or> int_literal (name_arg name))
   \<and> (name_arg name = [] \<longrightarrow> (\<exists>c g. parse_name maxd name = Inr (c, 0, g)))
   \<and> (int_literal (name_arg name) \<and> (maxd = 0 \<or> length (name_arg name) \<le> maxd)
      \<longrightarrow> (\<exists>c r g. parse_name maxd name = Inr (c, r, g)))
   \<and> parse_name maxd ''BM_EntropyInsertBatch/abc'' = Inl (ValueError (InvalidLiteral ''abc''))
   \<and> (name_arg name \<noteq> [] \<and> \<not> int_literal (name_arg name)
        \<and> \<not> aggregate_marked (JObj kvs) \<and> dict_get kvs ''name'' (JStr []) = JStr name
      \<longrightarrow> (JObj kvs \<in> set es \<longrightarrow> (\<exists>err. main maxd (benchmarks_doc es) = (Inl err, None)))
          \<and> (aggregate maxd [] pre = Inr s \<longrightarrow>
               main maxd (benchmarks_doc (pre @ JObj kvs # post))
                 = (Inl (ValueError (InvalidLiteral (name_arg name))), None)))
   \<and> parse_name 4300 ''BM_EntropyInsertBatch/1.5'' = Inl (ValueError (InvalidLiteral ''1.5''))
   \<and> parse_name 4300 ''BM_EntropyInsertBatch/10/20'' = Inl (ValueError (InvalidLiteral ''10/20''))
   \<and> parse_name 4300 ''BM_EntropyInsertBatch/10'' = Inr (''insert_batch'', 10, ''entropy'')
   \<and> parse_name 4300 ''BM_EntropyInsertBatch'' = Inr (''insert_batch'', 0, ''entropy'')
   \<and> parse_name 4300 ''BM_EntropyInsertBatch/'' = Inr (''insert_batch'', 0, ''entropy'')
   \<and> parse_name 4300 ''BM_SqlitePointSelect/1_000'' = Inr (''point_select'', 1000, ''sqlite'')"
proof -
  have "name_arg name \<noteq> [] \<and> \<not> int_literal (name_arg name)
      \<longrightarrow> parse_name maxd name = Inl (ValueError (InvalidLiteral (name_arg name)))"
    using parse_name_fails [of name maxd] by blast
  moreover have "(\<exists>r. parse_name maxd name = Inr r)
      \<longrightarrow> name_arg name = [] \<or> int_literal (name_arg name)"
    using parse_name_returns [of maxd name] by blast
  moreover have "name_arg name = [] \<longrightarrow> (\<exists>c g. parse_name maxd name = Inr (c, 0, g))"
    using parse_name_empty_arg [of name maxd] by blast
  moreover have "int_literal (name_arg name) \<and> (maxd = 0 \<or> length (name_arg name) \<le> maxd)
      \<longrightarrow> (\<exists>c r g. parse_name maxd name = Inr (c, r, g))"
    using parse_name_accepts [of name maxd] by blast
  moreover have "parse_name maxd ''BM_EntropyInsertBatch/abc''
      = Inl (ValueError (InvalidLiteral ''abc''))"
    using parse_name_fails [of "''BM_EntropyInsertBatch/abc''" maxd]
    by (simp add: name_arg_abc abc_not_literal)
  moreover have "name_arg name \<noteq> [] \<and> \<not> int_literal (name_arg name)
        \<and> \<not> aggregate_marked (JObj kvs) \<and> dict_get kvs ''name'' (JStr []) = JStr name
      \<longrightarrow> (JObj kvs \<in> set es \<longrightarrow> (\<exists>err. main maxd (benchmarks_doc es) = (Inl err, None)))
          \<and> (aggregate maxd [] pre = Inr s \<longrightarrow>
               main maxd (benchmarks_doc (pre @ JObj kvs # post))
                 = (Inl (ValueError (InvalidLiteral (name_arg name))), None))"
    using entry_effect_bad_name [of kvs name maxd]
      main_aborts [of "JObj kvs" es maxd] main_aborts_at [of maxd pre s "JObj kvs" _ post]
    by auto
  moreover note parse_name_instances(2-7)
  ultimately show ?thesis
    by (intro conjI)
qed

text \<open>
  The single entry \<open>{"name": "BM_EntropyInsertBatch/abc"}\<close> ends the run with the
  \<open>ValueError\<close> of \<open>int("abc")\<close> and no output file.
\<close>

theorem parse_name_invalid_rows_example:
  "name_arg ''BM_EntropyInsertBatch/abc'' = ''abc''
   \<and> \<not> int_literal ''abc''
   \<and> parse_name 4300 ''BM_EntropyInsertBatch/abc'' = Inl (ValueError (InvalidLiteral ''abc''))
   \<and> main 4300 (benchmarks_doc [JObj [(''name'', JStr ''BM_EntropyInsertBatch/abc'')]])
       = (Inl (ValueError (InvalidLiteral ''abc'')), None)"
proof -
  let ?kvs = "[(''name'', JStr ''BM_EntropyInsertBatch/abc'')]"
  have a: "\<not> aggregate_marked (JObj ?kvs)"
    by code_simp
  have b: "dict_get ?kvs ''name'' (JStr []) = JStr ''BM_EntropyInsertBatch/abc''"
    by code_simp
  have c: "aggregate 4300 [] [] = Inr []"
    by simp
  note inst = parse_name_invalid_rows [where name = "''BM_EntropyInsertBatch/abc''"
      and maxd = 4300 and kvs = ?kvs and pre = "[]" and s = "[]" and post = "[]"
      and es = "[]"]
  from inst a b c name_arg_abc abc_not_literal
  have "main 4300 (benchmarks_doc ([] @ JObj ?kvs # []))
      = (Inl (ValueError (InvalidLiteral ''abc'')), None)"
    by (simp del: aggregate.simps)
  moreover from inst
  have "parse_name 4300 ''BM_EntropyInsertBatch/abc'' = Inl (ValueError (InvalidLiteral ''abc''))"
    by blast
  ultimately show ?thesis
    using name_arg_abc abc_not_literal by simp
qed

text \<open>
  The claim as stated, for every entry with such a name, fails on an entry that is marked
  as an aggregate: the loop skips it before \<open>parse_name\<close> is called, and the run completes
  with the header as its output.
\<close>

theorem marked_entry_not_parsed:
  "name_arg ''BM_EntropyInsertBatch/abc'' = ''abc''
   \<and> \<not> int_literal ''abc''
   \<and> main 4300 (benchmarks_doc
       [JObj [(''name'', JStr ''BM_EntropyInsertBatch/abc''), (''run_type'', JStr ''aggregate'')]])
     = (Inr 0, Some (''case,rows,entropy_ns_per_op,sqlite_ns_per_op,ratio'' @ crlf))"
proof -
  have "main 4300 (benchmarks_doc
       [JObj [(''name'', JStr ''BM_EntropyInsertBatch/abc''), (''run_type'', JStr ''aggregate'')]])
     = (Inr 0, Some (''case,rows,entropy_ns_per_op,sqlite_ns_per_op,ratio'' @ crlf))"
    by code_simp
  with name_arg_abc abc_not_literal show ?thesis
    by simp
qed

lemma to_ns_unsupported:
  "u \<notin> {''ns'', ''us'', ''ms'', ''s''} \<Longrightarrow>
   to_ns v (JStr u) = Inl (ValueError (UnsupportedTimeUnit (JStr u)))"
  by (simp add: to_ns_def)

text \<open>
  C3. For every value and every unit string other than \<open>ns\<close>, \<open>us\<close>, \<open>ms\<close> and \<open>s\<close>, \<open>to_ns\<close>
  raises the \<open>ValueError\<close> that carries the unit. The error is fatal: a run whose loop
  reaches \<open>to_ns\<close> with such a unit on some entry ends with an exception before the output
  file is opened, and with this very error when the entries before it were processed.
\<close>

theorem unsupported_unit_fatal:
  assumes unit: "u \<notin> {''ns'', ''us'', ''ms'', ''s''}"
  shows "to_ns v (JStr u) = Inl (ValueError (UnsupportedTimeUnit (JStr u)))
    \<and> (\<not> aggregate_marked (JObj kvs) \<and> dict_get kvs ''name'' (JStr []) = JStr n \<and> n \<noteq> []
        \<and> parse_name maxd n = Inr (c, r, g) \<and> g \<noteq> ''other''
        \<and> py_float (dict_get kvs ''real_time'' (JFloat (Finite False 0))) = Inr w
        \<and> dict_get kvs ''time_unit'' (JStr ''ns'') = JStr u
      \<longrightarrow> (JObj kvs \<in> set es \<longrightarrow> (\<exists>err. main maxd (benchmarks_doc es) = (Inl err, None)))
          \<and> (aggregate maxd [] pre = Inr s \<longrightarrow>
               main maxd (benchmarks_doc (pre @ JObj kvs # post))
                 = (Inl (ValueError (UnsupportedTimeUnit (JStr u))), None)))"
proof -
  have conv: "to_ns x (JStr u) = Inl (ValueError (UnsupportedTimeUnit (JStr u)))" for x
    using unit by (rule to_ns_unsupported)
  have "entry_effect maxd (JObj kvs) = Inl (ValueError (UnsupportedTimeUnit (JStr u)))"
    if "\<not> aggregate_marked (JObj kvs)" "dict_get kvs ''name'' (JStr []) = JStr n" "n \<noteq> []"
      "parse_name maxd n = Inr (c, r, g)" "g \<noteq> ''other''"
      "py_float (dict_get kvs ''real_time'' (JFloat (Finite False 0))) = Inr w"
      "dict_get kvs ''time_unit'' (JStr ''ns'') = JStr u"
    using that by (simp add: entry_effect_def conv)
  then show ?thesis
    using conv [of v] main_aborts [of "JObj kvs" es maxd]
      main_aborts_at [of maxd pre s "JObj kvs" _ post]
    by auto
qed

text \<open>
  \<open>to_ns(1, "weeks")\<close> raises, and so does the run on the single entry
  \<open>{"name": "BM_EntropyInsertBatch/10", "real_time": 1.0, "time_unit": "weeks"}\<close>, which
  writes no output.
\<close>

theorem unsupported_unit_fatal_example:
  "''weeks'' \<notin> {''ns'', ''us'', ''ms'', ''s''}
   \<and> to_ns (Finite False 1) (JStr ''weeks'')
       = Inl (ValueError (UnsupportedTimeUnit (JStr ''weeks'')))
   \<and> main 4300 (benchmarks_doc
       [JObj [(''name'', JStr ''BM_EntropyInsertBatch/10''),
              (''real_time'', JFloat (Finite False 1)), (''time_unit'', JStr ''weeks'')]])
     = (Inl (ValueError (UnsupportedTimeUnit (JStr ''weeks''))), None)"
proof -
  let ?kvs = "[(''name'', JStr ''BM_EntropyInsertBatch/10''),
    (''real_time'', JFloat (Finite False 1)), (''time_unit'', JStr ''weeks'')]"
  have u: "''weeks'' \<notin> {''ns'', ''us'', ''ms'', ''s''}"
    by simp
  have a: "\<not> aggregate_marked (JObj ?kvs)"
    by code_simp
  have b: "dict_get ?kvs ''name'' (JStr []) = JStr ''BM_EntropyInsertBatch/10''"
    by code_simp
  have c: "parse_name 4300 ''BM_EntropyInsertBatch/10'' = Inr (''insert_batch'', 10, ''entropy'')"
    by code_simp
  have d: "py_float (dict_get ?kvs ''real_time'' (JFloat (Finite False 0))) = Inr (Finite False 1)"
    by code_simp
  have e: "dict_get ?kvs ''time_unit'' (JStr ''ns'') = JStr ''weeks''"
    by code_simp
  have f: "aggregate 4300 [] [] = Inr []"
    by simp
  note inst = unsupported_unit_fatal [OF u, where maxd = 4300 and kvs = ?kvs
      and n = "''BM_EntropyInsertBatch/10''" and c = "''insert_batch''" and r = 10
      and g = "''entropy''" and w = "Finite False 1" and pre = "[]" and s = "[]" and post = "[]"
      and v = "Finite False 1"]
  from inst a b c d e f
  have "main 4300 (benchmarks_doc ([] @ JObj ?kvs # []))
      = (Inl (ValueError (UnsupportedTimeUnit (JStr ''weeks''))), None)"
    by simp
  moreover from inst
  have "to_ns (Finite False 1) (JStr ''weeks'')
      = Inl (ValueError (UnsupportedTimeUnit (JStr ''weeks'')))"
    by blast
  ultimately show ?thesis
    using u by simp
qed

lemma digit_val_nonneg: "is_digit c \<Longrightarrow> 0 \<le> digit_val c"
  by (simp add: is_digit_def digit_val_def less_eq_char_def)

lemma foldl_digits_nonneg:
  "0 \<le> a \<Longrightarrow> \<forall>c \<in> set ds. is_digit c \<Longrightarrow> 0 \<le> foldl (\<lambda>a c. 10 * a + digit_val c) a ds"
  by (induction ds arbitrary: a) (simp_all add: digit_val_nonneg)

lemma set_strip: "set (strip s) \<subseteq> set s"
  by (auto simp: strip_def dest!: set_dropWhileD)

lemma py_int_nonneg:
  assumes "py_int maxd s = Some n" "CHR ''-'' \<notin> set s"
  shows "0 \<le> n"
proof -
  obtain neg body where sp: "split_sign (strip s) = (neg, body)"
    by (cases "split_sign (strip s)")
  have "\<not> neg"
  proof
    assume neg
    with sp have "CHR ''-'' \<in> set (strip s)"
      by (auto simp: split_sign_def split: list.splits if_splits)
    with set_strip assms(2) show False by blast
  qed
  with assms(1) sp have "n = digits_value (filter is_digit body)"
    by (auto simp: py_int_def Let_def split: if_splits)
  then show ?thesis
    by (simp add: digits_value_def foldl_digits_nonneg)
qed

lemma parse_name_rows_nonneg:
  assumes "parse_name maxd n = Inr (c, r, g)" "CHR ''-'' \<notin> set (name_arg n)"
  shows "0 \<le> r"
proof -
  obtain base sep arg where p: "str_partition n CHR ''/'' = (base, sep, arg)"
    by (cases "str_partition n CHR ''/''")
  with assms(1) have "r = 0 \<or> py_int maxd arg = Some r"
    by (auto simp: parse_name_def Let_def split: option.splits if_splits)
  with p assms(2) show ?thesis
    by (auto simp: name_arg_def dest: py_int_nonneg)
qed

lemma entry_effect_key:
  "entry_effect maxd e = Inr (Some ((c, r), g, v)) \<Longrightarrow>
   \<exists>kvs n. e = JObj kvs \<and> dict_get kvs ''name'' (JStr []) = JStr n
     \<and> parse_name maxd n = Inr (c, r, g)"
  by (auto simp: entry_effect_def split: json.splits sum.splits prod.splits if_splits)

lemma aggregate_keys:
  "aggregate maxd s es = Inr s' \<Longrightarrow> k \<in> fst ` set s' \<Longrightarrow>
   k \<in> fst ` set s \<or> (\<exists>e \<in> set es. \<exists>g v. entry_effect maxd e = Inr (Some (k, g, v)))"
proof (induction es arbitrary: s)
  case Nil
  then show ?case by simp
next
  case (Cons e es)
  from Cons.prems(1) obtain s1 where
    s1: "loop_body maxd s e = Inr s1" and rest: "aggregate maxd s1 es = Inr s'"
    by (auto split: sum.splits)
  from Cons.IH [OF rest Cons.prems(2)]
  consider "k \<in> fst ` set s1"
    | "\<exists>e \<in> set es. \<exists>g v. entry_effect maxd e = Inr (Some (k, g, v))"
    by blast
  then show ?case
  proof cases
    case 1
    show ?thesis
    proof (cases "entry_effect maxd e")
      case (Inl x)
      with s1 show ?thesis by (simp add: loop_body_effect)
    next
      case (Inr opt)
      show ?thesis
      proof (cases opt)
        case None
        with Inr s1 1 show ?thesis by (simp add: loop_body_effect)
      next
        case (Some t)
        obtain k' g v where t: "t = (k', g, v)" by (cases t)
        with Some Inr s1 have "s1 = upsert s k' g v" by (simp add: loop_body_effect)
        with 1 have "k = k' \<or> k \<in> fst ` set s" by (simp add: keys_upsert)
        with Some Inr t show ?thesis by auto
      qed
    qed
  next
    case 2
    then show ?thesis by auto
  qed
qed

lemma parse_name_rows_read:
  "parse_name maxd n = Inr (c, r, g) \<Longrightarrow>
   (if name_arg n = [] then r = 0 else py_int maxd (name_arg n) = Some r)"
  by (auto simp: parse_name_def name_arg_def Let_def split: prod.splits option.splits if_splits)

text \<open>
  C9, as amended. Every key \<open>(case, rows)\<close> of the table of a completed run comes from an
  entry of the input whose name \<open>parse_name\<close> maps to it: \<open>rows\<close> is the integer that \<open>int\<close>
  reads from the part of the name after its first \<open>/\<close>, 0 when that part is empty, and
  it is at least 0 whenever that part holds no minus sign.
\<close>

theorem rows_from_name_suffix:
  assumes "aggregate maxd [] es = Inr summary" and "(c, r) \<in> fst ` set summary"
  shows "\<exists>kvs n g. JObj kvs \<in> set es \<and> dict_get kvs ''name'' (JStr []) = JStr n
           \<and> parse_name maxd n = Inr (c, r, g)
           \<and> (if name_arg n = [] then r = 0 else py_int maxd (name_arg n) = Some r)
           \<and> (CHR ''-'' \<notin> set (name_arg n) \<longrightarrow> 0 \<le> r)"
proof -
  from aggregate_keys [OF assms] obtain e g v where
    e: "e \<in> set es" and eff: "entry_effect maxd e = Inr (Some ((c, r), g, v))"
    by auto
  from entry_effect_key [OF eff] obtain kvs n where
    kvs: "e = JObj kvs" "dict_get kvs ''name'' (JStr []) = JStr n"
      "parse_name maxd n = Inr (c, r, g)"
    by blast
  with e parse_name_rows_read [OF kvs(3)] parse_name_rows_nonneg [OF kvs(3)] show ?thesis
    by blast
qed

text \<open>
  The entry \<open>{"name": "BM_EntropyInsertBatch/10"}\<close> gives the key \<open>(insert_batch, 10)\<close>.
\<close>

theorem rows_from_name_suffix_example:
  "aggregate 4300 [] [JObj [(''name'', JStr ''BM_EntropyInsertBatch/10'')]]
     = Inr [((''insert_batch'', 10), [(''entropy'', Finite False 0)])]
   \<and> (''insert_batch'', 10) \<in> fst ` set [((''insert_batch'', 10), [(''entropy'', Finite False 0)])]
   \<and> (\<exists>kvs n g. JObj kvs \<in> set [JObj [(''name'', JStr ''BM_EntropyInsertBatch/10'')]]
         \<and> dict_get kvs ''name'' (JStr []) = JStr n
         \<and> parse_name 4300 n = Inr (''insert_batch'', 10, g)
         \<and> (if name_arg n = [] then (10 :: int) = 0 else py_int 4300 (name_arg n) = Some 10)
         \<and> (CHR ''-'' \<notin> set (name_arg n) \<longrightarrow> (0 :: int) \<le> 10))"
proof -
  have run: "aggregate 4300 [] [JObj [(''name'', JStr ''BM_EntropyInsertBatch/10'')]]
     = Inr [((''insert_batch'', 10), [(''entropy'', Finite False 0)])]"
    by code_simp
  have key: "(''insert_batch'', 10)
      \<in> fst ` set [((''insert_batch'', 10), [(''entropy'', Finite False 0)])]"
    by simp
  from run key rows_from_name_suffix [OF run key] show ?thesis
    by (intro conjI)
qed

text \<open>
  The claim as stated fails on the name \<open>BM_EntropyInsertBatch/-5\<close>: \<open>int("-5")\<close> is \<open>-5\<close>,
  the run completes, and the table and the output hold the key \<open>(insert_batch, -5)\<close>.
\<close>

theorem negative_rows_accepted:
  "main 4300 (benchmarks_doc [JObj [(''name'', JStr ''BM_EntropyInsertBatch/-5'')]])
     = (Inr 0,
        Some (''case,rows,entropy_ns_per_op,sqlite_ns_per_op,ratio'' @ crlf
              @ ''insert_batch,-5,0.0,,'' @ crlf))
   \<and> aggregate 4300 [] [JObj [(''name'', JStr ''BM_EntropyInsertBatch/-5'')]]
     = Inr [((''insert_batch'', - 5), [(''entropy'', Finite False 0)])]
   \<and> \<not> (0 :: int) \<le> - 5"
proof -
  have "main 4300 (benchmarks_doc [JObj [(''name'', JStr ''BM_EntropyInsertBatch/-5'')]])
     = (Inr 0,
        Some (''case,rows,entropy_ns_per_op,sqlite_ns_per_op,ratio'' @ crlf
              @ ''insert_batch,-5,0.0,,'' @ crlf))"
    by code_simp
  moreover have "aggregate 4300 [] [JObj [(''name'', JStr ''BM_EntropyInsertBatch/-5'')]]
     = Inr [((''insert_batch'', - 5), [(''entropy'', Finite False 0)])]"
    by code_simp
  ultimately show ?thesis
    by simp
qed

section \<open>The output file\<close>

lemma ratio_cell_spec:
  "ratio_cell (row_get r ''entropy'') (row_get r ''sqlite'') = Inr (spec_ratio r)"
  by (simp add: row_get_def spec_ratio_def py_truediv_def split: option.split)

lemma data_row_spec:
  "map_of summary key = Some r \<Longrightarrow>
   data_row summary key
     = Inr [CStr (fst key), CInt (snd key), row_get r ''entropy'', row_get r ''sqlite'',
            spec_ratio r]"
  by (simp add: data_row_def ratio_cell_spec)

lemma data_row_spec_row:
  "key \<in> fst ` set summary \<Longrightarrow> data_row summary key = Inr (spec_row summary key)"
  by (cases "map_of summary key")
    (auto simp: spec_row_def data_row_spec map_of_eq_None_iff)

lemma write_rows_spec:
  "set keys \<subseteq> fst ` set summary \<Longrightarrow>
   write_rows summary keys out
     = (Inr (), out @ concat (map (\<lambda>key. csv_line (spec_row summary key)) keys))"
  by (induction keys arbitrary: out) (simp_all add: data_row_spec_row)

lemma emit_spec:
  "emit summary
     = (Inr (),
        csv_line header
        @ concat (map (\<lambda>key. csv_line (spec_row summary key)) (sort (map fst summary))))"
  by (simp add: emit_def write_rows_spec)





lemma aggregate_keys_kept:
  "aggregate maxd s es = Inr s' \<Longrightarrow>
   k \<in> fst ` set s \<or> (\<exists>e \<in> set es. \<exists>g v. entry_effect maxd e = Inr (Some (k, g, v))) \<Longrightarrow>
   k \<in> fst ` set s'"
proof (induction es arbitrary: s)
  case Nil
  then show ?case by simp
next
  case (Cons e es)
  from Cons.prems(1) obtain s1 where
    s1: "loop_body maxd s e = Inr s1" and rest: "aggregate maxd s1 es = Inr s'"
    by (auto split: sum.splits)
  have "k \<in> fst ` set s1 \<or> (\<exists>e \<in> set es. \<exists>g v. entry_effect maxd e = Inr (Some (k, g, v)))"
  proof (cases "\<exists>e \<in> set es. \<exists>g v. entry_effect maxd e = Inr (Some (k, g, v))")
    case True
    then show ?thesis by simp
  next
    case False
    with Cons.prems(2) consider "k \<in> fst ` set s"
      | g v where "entry_effect maxd e = Inr (Some (k, g, v))"
      by auto
    then have "k \<in> fst ` set s1"
    proof cases
      case 1
      show ?thesis
      proof (cases "entry_effect maxd e")
        case (Inl x)
        with s1 show ?thesis by (simp add: loop_body_effect)
      next
        case (Inr opt)
        show ?thesis
        proof (cases opt)
          case None
          with Inr s1 1 show ?thesis by (simp add: loop_body_effect)
        next
          case (Some t)
          obtain k' g v where "t = (k', g, v)" by (cases t)
          with Some Inr s1 have "s1 = upsert s k' g v" by (simp add: loop_body_effect)
          with 1 show ?thesis by (simp add: keys_upsert)
        qed
      qed
    next
      case 2
      with s1 have "s1 = upsert s k g v" by (simp add: loop_body_effect)
      then show ?thesis by (simp add: keys_upsert)
    qed
    then show ?thesis by simp
  qed
  from Cons.IH [OF rest this] show ?case .
qed

lemma aggregate_key_set:
  assumes "aggregate maxd [] es = Inr summary"
  shows "fst ` set summary = {k. \<exists>e \<in> set es. \<exists>g v. entry_effect maxd e = Inr (Some (k, g, v))}"
proof (rule set_eqI)
  fix k
  have "k \<in> fst ` set summary \<Longrightarrow>
    \<exists>e \<in> set es. \<exists>g v. entry_effect maxd e = Inr (Some (k, g, v))"
    using aggregate_keys [OF assms, of k] by simp
  moreover have "\<exists>e \<in> set es. \<exists>g v. entry_effect maxd e = Inr (Some (k, g, v)) \<Longrightarrow>
    k \<in> fst ` set summary"
    using aggregate_keys_kept [OF assms, of k] by simp
  ultimately show "k \<in> fst ` set summary
    \<longleftrightarrow> k \<in> {k. \<exists>e \<in> set es. \<exists>g v. entry_effect maxd e = Inr (Some (k, g, v))}"
    by blast
qed

lemma sorted_keys_unique:
  assumes "aggregate maxd [] es = Inr summary" "aggregate maxd' [] es' = Inr summary'"
    "fst ` set summary' = fst ` set summary"
  shows "sort (map fst summary') = sort (map fst summary)"
proof -
  have "distinct (map fst summary)" "distinct (map fst summary')"
    using aggregate_distinct [OF assms(1)] aggregate_distinct [OF assms(2)] by simp_all
  with assms(3) show ?thesis
    by (intro sorted_distinct_set_unique) simp_all
qed

lemma sorted_rows_instance:
  "emit [((''point_select'', 5), [(''entropy'', Finite False 0)]),
         ((''insert_batch'', 10), [(''sqlite'', Finite False 0)]),
         ((''insert_batch'', 2), [(''entropy'', Finite False 0)])]
     = (Inr (),
        ''case,rows,entropy_ns_per_op,sqlite_ns_per_op,ratio'' @ crlf
        @ ''insert_batch,2,0.0,,'' @ crlf
        @ ''insert_batch,10,,0.0,'' @ crlf
        @ ''point_select,5,0.0,,'' @ crlf)"
  by code_simp

text \<open>
  C5. For the table of every completed run the output is the header followed by one row
  per key, in the order of the sorted key list: ascending, without repetition, each row
  starting with its case and rows. Keys \<open>(case, rows)\<close> compare by case, as strings, and for
  equal cases by rows, as integers. The order does not depend on the order of the entries:
  inputs with the same entries, and more generally runs whose tables have the same key
  set, write their rows in the same key order. A table filled in the order
  \<open>(point_select, 5)\<close>, \<open>(insert_batch, 10)\<close>, \<open>(insert_batch, 2)\<close> is written as
  \<open>insert_batch,2\<close>, \<open>insert_batch,10\<close>, \<open>point_select,5\<close>.
\<close>

theorem rows_sorted_by_key:
  assumes "aggregate maxd [] es = Inr summary"
  shows "emit summary
           = (Inr (),
              csv_line header
              @ concat (map (\<lambda>key. csv_line (spec_row summary key)) (sort (map fst summary))))
    \<and> sorted (sort (map fst summary)) \<and> distinct (sort (map fst summary))
    \<and> set (sort (map fst summary)) = fst ` set summary
    \<and> (key \<in> fst ` set summary \<longrightarrow>
          take 2 (spec_row summary key) = [CStr (fst key), CInt (snd key)])
    \<and> (set es' = set es \<and> aggregate maxd [] es' = Inr summary' \<longrightarrow>
          sort (map fst summary') = sort (map fst summary))
    \<and> (fst ` set summary'' = fst ` set summary \<and> aggregate maxd' [] es'' = Inr summary'' \<longrightarrow>
          sort (map fst summary'') = sort (map fst summary))
    \<and> (((c :: string, r :: int) \<le> (c', r')) = (c < c' \<or> c = c' \<and> r \<le> r'))
    \<and> emit [((''point_select'', 5), [(''entropy'', Finite False 0)]),
             ((''insert_batch'', 10), [(''sqlite'', Finite False 0)]),
             ((''insert_batch'', 2), [(''entropy'', Finite False 0)])]
         = (Inr (),
            ''case,rows,entropy_ns_per_op,sqlite_ns_per_op,ratio'' @ crlf
            @ ''insert_batch,2,0.0,,'' @ crlf
            @ ''insert_batch,10,,0.0,'' @ crlf
            @ ''point_select,5,0.0,,'' @ crlf)"
proof -
  have d: "distinct (map fst summary)"
    using aggregate_distinct [OF assms] by simp
  have "sort (map fst summary') = sort (map fst summary)"
    if "set es' = set es" "aggregate maxd [] es' = Inr summary'"
  proof -
    have "fst ` set summary' = fst ` set summary"
      using aggregate_key_set [OF assms] aggregate_key_set [OF that(2)] that(1) by simp
    from sorted_keys_unique [OF assms that(2) this] show ?thesis .
  qed
  moreover have "sort (map fst summary'') = sort (map fst summary)"
    if "fst ` set summary'' = fst ` set summary" "aggregate maxd' [] es'' = Inr summary''"
    using sorted_keys_unique [OF assms that(2) that(1)] .
  moreover have "take 2 (spec_row summary key) = [CStr (fst key), CInt (snd key)]"
    if "key \<in> fst ` set summary"
    using that by (cases "map_of summary key") (auto simp: spec_row_def map_of_eq_None_iff)
  ultimately have gen: "emit summary
           = (Inr (),
              csv_line header
              @ concat (map (\<lambda>key. csv_line (spec_row summary key)) (sort (map fst summary))))
    \<and> sorted (sort (map fst summary)) \<and> distinct (sort (map fst summary))
    \<and> set (sort (map fst summary)) = fst ` set summary
    \<and> (key \<in> fst ` set summary \<longrightarrow>
          take 2 (spec_row summary key) = [CStr (fst key), CInt (snd key)])
    \<and> (set es' = set es \<and> aggregate maxd [] es' = Inr summary' \<longrightarrow>
          sort (map fst summary') = sort (map fst summary))
    \<and> (fst ` set summary'' = fst ` set summary \<and> aggregate maxd' [] es'' = Inr summary'' \<longrightarrow>
          sort (map fst summary'') = sort (map fst summary))
    \<and> (((c :: string, r :: int) \<le> (c', r')) = (c < c' \<or> c = c' \<and> r \<le> r'))"
    using d by (auto simp: emit_spec)
  show ?thesis
    using gen sorted_rows_instance by (elim conjE, intro conjI)
qed

text \<open>
  The run on entries named \<open>BM_EntropyPointSelect/5\<close>, \<open>BM_SqliteInsertBatch/10\<close> and
  \<open>BM_EntropyInsertBatch/2\<close>, in this order.
\<close>

theorem rows_sorted_by_key_example:
  "aggregate 4300 []
     [JObj [(''name'', JStr ''BM_EntropyPointSelect/5'')],
      JObj [(''name'', JStr ''BM_SqliteInsertBatch/10'')],
      JObj [(''name'', JStr ''BM_EntropyInsertBatch/2'')]]
     = Inr [((''point_select'', 5), [(''entropy'', Finite False 0)]),
            ((''insert_batch'', 10), [(''sqlite'', Finite False 0)]),
            ((''insert_batch'', 2), [(''entropy'', Finite False 0)])]
   \<and> emit [((''point_select'', 5), [(''entropy'', Finite False 0)]),
           ((''insert_batch'', 10), [(''sqlite'', Finite False 0)]),
           ((''insert_batch'', 2), [(''entropy'', Finite False 0)])]
     = (Inr (),
        ''case,rows,entropy_ns_per_op,sqlite_ns_per_op,ratio'' @ crlf
        @ ''insert_batch,2,0.0,,'' @ crlf
        @ ''insert_batch,10,,0.0,'' @ crlf
        @ ''point_select,5,0.0,,'' @ crlf)"
proof -
  let ?s = "[((''point_select'', 5), [(''entropy'', Finite False 0)]),
            ((''insert_batch'', 10), [(''sqlite'', Finite False 0)]),
            ((''insert_batch'', 2), [(''entropy'', Finite False 0)])]"
  have run: "aggregate 4300 []
     [JObj [(''name'', JStr ''BM_EntropyPointSelect/5'')],
      JObj [(''name'', JStr ''BM_SqliteInsertBatch/10'')],
      JObj [(''name'', JStr ''BM_EntropyInsertBatch/2'')]] = Inr ?s"
    by code_simp
  have out: "csv_line header
      @ concat (map (\<lambda>key. csv_line (spec_row ?s key)) (sort (map fst ?s)))
    = ''case,rows,entropy_ns_per_op,sqlite_ns_per_op,ratio'' @ crlf
        @ ''insert_batch,2,0.0,,'' @ crlf
        @ ''insert_batch,10,,0.0,'' @ crlf
        @ ''point_select,5,0.0,,'' @ crlf"
    by code_simp
  from rows_sorted_by_key [OF run]
  have "emit ?s
      = (Inr (),
         csv_line header @ concat (map (\<lambda>key. csv_line (spec_row ?s key)) (sort (map fst ?s))))"
    by (rule conjunct1)
  with out have "emit ?s
     = (Inr (),
        ''case,rows,entropy_ns_per_op,sqlite_ns_per_op,ratio'' @ crlf
        @ ''insert_batch,2,0.0,,'' @ crlf
        @ ''insert_batch,10,,0.0,'' @ crlf
        @ ''point_select,5,0.0,,'' @ crlf)"
    by (simp only:)
  with run show ?thesis
    by (intro conjI)
qed

lemma py_int_10: "maxd \<noteq> 1 \<Longrightarrow> py_int maxd ''10'' = Some 10"
proof -
  assume m: "maxd \<noteq> 1"
  have a: "split_sign (strip ''10'') = (False, ''10'')" by code_simp
  have b: "is_digit CHR ''1''" "is_digit CHR ''0''" by code_simp+
  have d: "digits_value ''10'' = 10" by code_simp
  from m show ?thesis
    unfolding py_int_def a by (auto simp: b d Let_def)
qed

lemma parse_name_entropy_10:
  assumes "maxd \<noteq> 1"
  shows "parse_name maxd ''BM_EntropyInsertBatch/10'' = Inr (''insert_batch'', 10, ''entropy'')"
proof -
  have p: "str_partition ''BM_EntropyInsertBatch/10'' CHR ''/''
    = (''BM_EntropyInsertBatch'', ''/'', ''10'')" by code_simp
  have s: "sublist ''Entropy'' ''BM_EntropyInsertBatch''"
    "sublist ''InsertBatch'' ''BM_EntropyInsertBatch''" by code_simp+
  show ?thesis
    unfolding parse_name_def p by (simp add: py_int_10 [OF assms] s Let_def)
qed

lemma parse_name_sqlite_10:
  assumes "maxd \<noteq> 1"
  shows "parse_name maxd ''BM_SqliteInsertBatch/10'' = Inr (''insert_batch'', 10, ''sqlite'')"
proof -
  have p: "str_partition ''BM_SqliteInsertBatch/10'' CHR ''/''
    = (''BM_SqliteInsertBatch'', ''/'', ''10'')" by code_simp
  have s: "\<not> sublist ''Entropy'' ''BM_SqliteInsertBatch''"
    "sublist ''Sqlite'' ''BM_SqliteInsertBatch''"
    "sublist ''InsertBatch'' ''BM_SqliteInsertBatch''" by code_simp+
  show ?thesis
    unfolding parse_name_def p by (simp add: py_int_10 [OF assms] s Let_def)
qed

lemma example_values:
  "py_float (JInt 100) = Inr (Finite False 100)"
  "py_float (JInt 50) = Inr (Finite False 50)"
  "to_ns (Finite False 100) (JStr ''ns'') = Inr (Finite False 100)"
  "to_ns (Finite False 50) (JStr ''us'') = Inr (Finite False 50000)"
  by code_simp+

lemma example_table:
  assumes "maxd \<noteq> 1"
  shows "aggregate maxd []
      [JObj [(''name'', JStr ''BM_EntropyInsertBatch/10''), (''real_time'', JInt 100),
             (''time_unit'', JStr ''ns'')],
       JObj [(''name'', JStr ''BM_SqliteInsertBatch/10''), (''real_time'', JInt 50),
             (''time_unit'', JStr ''us'')]]
    = Inr [((''insert_batch'', 10),
            [(''entropy'', Finite False 100), (''sqlite'', Finite False 50000)])]"
  by (simp add: loop_body_effect entry_effect_def aggregate_marked_def dict_get_def
      parse_name_entropy_10 [OF assms] parse_name_sqlite_10 [OF assms] example_values
      upsert_def del: py_float.simps)

lemma example_emit:
  "emit [((''insert_batch'', 10),
          [(''entropy'', Finite False 100), (''sqlite'', Finite False 50000)])]
    = (Inr (),
       ''case,rows,entropy_ns_per_op,sqlite_ns_per_op,ratio'' @ crlf
       @ ''insert_batch,10,100.0,50000.0,0.002'' @ crlf)"
  by code_simp

text \<open>
  C1, as amended. On the input with the two entries
  \<open>{"name": "BM_EntropyInsertBatch/10", "real_time": 100, "time_unit": "ns"}\<close> and
  \<open>{"name": "BM_SqliteInsertBatch/10", "real_time": 50, "time_unit": "us"}\<close> the run exits
  with status 0 and the output is the header of five fields and exactly one data row,
  \<open>insert_batch,10,100.0,50000.0,0.002\<close>: the two timings are floats and are written as such,
  and the ratio is \<open>100.0 / 50000.0\<close>. This holds for every digit limit of \<open>int\<close> other than 1
  (an interpreter accepts 0 and the limits from 640 on).
\<close>

theorem example_run:
  assumes "maxd \<noteq> 1"
  shows "main maxd example_doc
    = (Inr 0,
       Some (''case,rows,entropy_ns_per_op,sqlite_ns_per_op,ratio'' @ crlf
             @ ''insert_batch,10,100.0,50000.0,0.002'' @ crlf))"
  unfolding example_doc_def main_benchmarks_doc example_table [OF assms]
  by (simp add: example_emit)

text \<open>
  With the default digit limit.
\<close>

theorem example_run_default:
  "main 4300 example_doc
    = (Inr 0,
       Some (''case,rows,entropy_ns_per_op,sqlite_ns_per_op,ratio'' @ crlf
             @ ''insert_batch,10,100.0,50000.0,0.002'' @ crlf))"
  using example_run [of 4300] by simp

lemma example_text_differs:
  "''case,rows,entropy_ns_per_op,sqlite_ns_per_op,ratio'' @ crlf
     @ ''insert_batch,10,100.0,50000.0,0.002'' @ crlf
   \<noteq> ''case,rows,entropy_ns_per_op,sqlite_ns_per_op,ratio'' @ crlf
     @ ''insert_batch,10,100,50000,0.002'' @ crlf"
  by (simp add: crlf_def)

text \<open>
  The claim as stated fails: the output is not the header followed by the row
  \<open>insert_batch,10,100,50000,0.002\<close>.
\<close>

theorem example_row_has_float_fields:
  "snd (main 4300 example_doc)
     \<noteq> Some (''case,rows,entropy_ns_per_op,sqlite_ns_per_op,ratio'' @ crlf
             @ ''insert_batch,10,100,50000,0.002'' @ crlf)"
proof -
  have "4300 \<noteq> (1 :: nat)" by simp
  from example_table [OF this] show ?thesis
    unfolding example_doc_def main_benchmarks_doc
    by (simp add: example_emit example_text_differs)
qed

end
